theory Spec2Isabelle
  imports Complex_Main
begin

section \<open>Python values\<close>

text \<open>
  A Python \<^verbatim>\<open>str\<close> is a \<^typ>\<open>string\<close>: the list of its code points, for the code points
  below 256 (one \<^typ>\<open>char\<close> each). Exceptions are values of \<open>exn\<close>; a function that may
  raise returns \<open>exn + 'a\<close>, with \<open>Inl\<close> for the raise. An exception carries its message
  (\<^verbatim>\<open>str(e)\<close>). \<open>ValueError\<close> also stands for its
  subclasses (\<^verbatim>\<open>UnicodeDecodeError\<close>, \<^verbatim>\<open>json.JSONDecodeError\<close>), which
  \<^verbatim>\<open>except ValueError\<close> catches alike.
\<close>

datatype exn =
    ValueError string
  | TypeError string
  | KeyError string
  | OSError string
  | FileNotFoundError string
  | TimeoutExpired string
  | RuntimeError string

text \<open>
  The values that \<^verbatim>\<open>json.loads\<close> and \<^verbatim>\<open>yaml.safe_load\<close> return, and that
  \<^verbatim>\<open>json.dumps\<close> prints. A dict is an association list in insertion order.
\<close>

datatype pyval =
    PyNone
  | PyBool bool
  | PyInt int
  | PyFloat real
  | PyStr string
  | PyList "pyval list"
  | PyDict "(pyval \<times> pyval) list"

text \<open>Truth value testing (\<^verbatim>\<open>if x\<close>, \<^verbatim>\<open>not x\<close>).\<close>

fun truthy :: "pyval \<Rightarrow> bool" where
  "truthy PyNone = False"
| "truthy (PyBool b) = b"
| "truthy (PyInt i) = (i \<noteq> 0)"
| "truthy (PyFloat x) = (x \<noteq> 0)"
| "truthy (PyStr s) = (s \<noteq> [])"
| "truthy (PyList xs) = (xs \<noteq> [])"
| "truthy (PyDict kvs) = (kvs \<noteq> [])"

text \<open>\<^verbatim>\<open>if not s\<close> for \<^verbatim>\<open>s: str | None\<close>: \<^verbatim>\<open>None\<close> and the empty string are false.\<close>

fun str_truthy :: "string option \<Rightarrow> bool" where
  "str_truthy None = False"
| "str_truthy (Some s) = (s \<noteq> [])"

subsection \<open>String methods\<close>

text \<open>\<^verbatim>\<open>sep.join(xs)\<close>.\<close>

fun join :: "string \<Rightarrow> string list \<Rightarrow> string" where
  "join sep [] = []"
| "join sep [x] = x"
| "join sep (x # y # ys) = x @ sep @ join sep (y # ys)"

text \<open>\<^verbatim>\<open>sub in s\<close> for two strings.\<close>

fun is_substring :: "string \<Rightarrow> string \<Rightarrow> bool" where
  "is_substring sub [] = (sub = [])"
| "is_substring sub (c # cs) = (take (length sub) (c # cs) = sub \<or> is_substring sub cs)"

text \<open>
  \<^verbatim>\<open>s.replace(old, new)\<close>: the occurrences of \<open>old\<close> are replaced from left to right,
  without overlap. With an empty \<open>old\<close>, Python puts \<open>new\<close> before every character and at
  the end.
\<close>

function replace :: "string \<Rightarrow> string \<Rightarrow> string \<Rightarrow> string" where
  "replace old new s =
     (if old = [] then new @ concat (map (\<lambda>c. c # new) s)
      else if s = [] then []
      else if take (length old) s = old then new @ replace old new (drop (length old) s)
      else hd s # replace old new (tl s))"
  by pat_completeness auto
termination
  by (relation "measure (\<lambda>(old, new, s). length s)") (auto simp: neq_Nil_conv)

text \<open>
  \<^verbatim>\<open>s.lower()\<close>: the upper-case letters below code point 256 are \<open>A\<close> to \<open>Z\<close> and
  \<open>0xC0\<close> to \<open>0xDE\<close> without \<open>0xD7\<close>; each has its lower-case letter 32 code points
  further.
\<close>

definition upper_letters :: string where
  "upper_letters = ''ABCDEFGHIJKLMNOPQRSTUVWXYZ'' @
     [CHR 0xC0, CHR 0xC1, CHR 0xC2, CHR 0xC3, CHR 0xC4, CHR 0xC5, CHR 0xC6, CHR 0xC7,
      CHR 0xC8, CHR 0xC9, CHR 0xCA, CHR 0xCB, CHR 0xCC, CHR 0xCD, CHR 0xCE, CHR 0xCF,
      CHR 0xD0, CHR 0xD1, CHR 0xD2, CHR 0xD3, CHR 0xD4, CHR 0xD5, CHR 0xD6,
      CHR 0xD8, CHR 0xD9, CHR 0xDA, CHR 0xDB, CHR 0xDC, CHR 0xDD, CHR 0xDE]"

definition lower_letters :: string where
  "lower_letters = ''abcdefghijklmnopqrstuvwxyz'' @
     [CHR 0xE0, CHR 0xE1, CHR 0xE2, CHR 0xE3, CHR 0xE4, CHR 0xE5, CHR 0xE6, CHR 0xE7,
      CHR 0xE8, CHR 0xE9, CHR 0xEA, CHR 0xEB, CHR 0xEC, CHR 0xED, CHR 0xEE, CHR 0xEF,
      CHR 0xF0, CHR 0xF1, CHR 0xF2, CHR 0xF3, CHR 0xF4, CHR 0xF5, CHR 0xF6,
      CHR 0xF8, CHR 0xF9, CHR 0xFA, CHR 0xFB, CHR 0xFC, CHR 0xFD, CHR 0xFE]"

definition lower_char :: "char \<Rightarrow> char" where
  "lower_char c = (case map_of (zip upper_letters lower_letters) c of Some l \<Rightarrow> l | None \<Rightarrow> c)"

definition lower :: "string \<Rightarrow> string" where
  "lower s = map lower_char s"

text \<open>
  \<^verbatim>\<open>s.title()\<close> on ASCII text: a letter that follows a letter is lowered, any other
  letter is raised. (The strings given to it are the key names of \<open>APIKeysCheck\<close>.)
\<close>

definition upper_char_ascii :: "char \<Rightarrow> char" where
  "upper_char_ascii c =
     (case map_of (zip (take 26 lower_letters) (take 26 upper_letters)) c of
        Some u \<Rightarrow> u | None \<Rightarrow> c)"

definition lower_char_ascii :: "char \<Rightarrow> char" where
  "lower_char_ascii c =
     (case map_of (zip (take 26 upper_letters) (take 26 lower_letters)) c of
        Some l \<Rightarrow> l | None \<Rightarrow> c)"

definition is_letter_ascii :: "char \<Rightarrow> bool" where
  "is_letter_ascii c = (c \<in> set (take 26 upper_letters) \<or> c \<in> set (take 26 lower_letters))"

fun title_from :: "bool \<Rightarrow> string \<Rightarrow> string" where
  "title_from previous_is_cased [] = []"
| "title_from previous_is_cased (c # cs) =
     (if previous_is_cased then lower_char_ascii c else upper_char_ascii c)
       # title_from (is_letter_ascii c) cs"

definition title :: "string \<Rightarrow> string" where
  "title s = title_from False s"

text \<open>\<^verbatim>\<open>str(n)\<close> for a non-negative integer.\<close>

fun str_nat :: "nat \<Rightarrow> string" where
  "str_nat n =
     (if n < 10 then [''0123456789'' ! n]
      else str_nat (n div 10) @ [''0123456789'' ! (n mod 10)])"

section \<open>The result model (checks/base.py)\<close>

datatype CheckStatus = PASS | WARN | FAIL | SKIP

fun status_value :: "CheckStatus \<Rightarrow> string" where
  "status_value PASS = ''pass''"
| "status_value WARN = ''warn''"
| "status_value FAIL = ''fail''"
| "status_value SKIP = ''skip''"

record CheckResult =
  name :: string
  status :: CheckStatus
  message :: string
  details :: "string option"
  can_auto_fix :: bool
  fix_suggestions :: "string list"

text \<open>
  The constructor that \<^verbatim>\<open>@dataclass\<close> generates. An argument the caller leaves out is
  \<open>None\<close>. The three fields without a default are required: Python raises
  \<^verbatim>\<open>TypeError\<close> when one is missing, naming the missing parameters. Nothing else is
  checked: the class has no \<^verbatim>\<open>__post_init__\<close>.
\<close>

definition missing_arguments ::
  "string option \<Rightarrow> CheckStatus option \<Rightarrow> string option \<Rightarrow> string list" where
  "missing_arguments name_arg status_arg message_arg =
     (if name_arg = None then [''name''] else []) @
     (if status_arg = None then [''status''] else []) @
     (if message_arg = None then [''message''] else [])"

definition CheckResult_init ::
  "string option \<Rightarrow> CheckStatus option \<Rightarrow> string option \<Rightarrow> string option option \<Rightarrow>
   bool option \<Rightarrow> string list option \<Rightarrow> exn + CheckResult" where
  "CheckResult_init name_arg status_arg message_arg details_arg can_auto_fix_arg
     fix_suggestions_arg =
     (case (name_arg, status_arg, message_arg) of
        (Some n, Some s, Some m) \<Rightarrow>
          Inr \<lparr>name = n, status = s, message = m,
               details = (case details_arg of None \<Rightarrow> None | Some d \<Rightarrow> d),
               can_auto_fix = (case can_auto_fix_arg of None \<Rightarrow> False | Some b \<Rightarrow> b),
               fix_suggestions = (case fix_suggestions_arg of None \<Rightarrow> [] | Some l \<Rightarrow> l)\<rparr>
      | _ \<Rightarrow>
          Inl (TypeError (''CheckResult.__init__() missing required positional arguments: '' @
                 join '', '' (missing_arguments name_arg status_arg message_arg))))"

definition passed :: "CheckResult \<Rightarrow> bool" where
  "passed r = (status r = PASS \<or> status r = WARN)"

definition is_warning :: "CheckResult \<Rightarrow> bool" where
  "is_warning r = (status r = WARN)"

definition to_dict :: "CheckResult \<Rightarrow> pyval" where
  "to_dict r = PyDict
     [(PyStr ''name'', PyStr (name r)),
      (PyStr ''status'', PyStr (status_value (status r))),
      (PyStr ''message'', PyStr (message r)),
      (PyStr ''details'', (case details r of None \<Rightarrow> PyNone | Some d \<Rightarrow> PyStr d)),
      (PyStr ''can_auto_fix'', PyBool (can_auto_fix r)),
      (PyStr ''fix_suggestions'', PyList (map PyStr (fix_suggestions r)))]"

section \<open>The console (console.py)\<close>

text \<open>
  What the program writes is kept as a list of calls of the console functions, each with
  its arguments. The two lines that \<^verbatim>\<open>main.py\<close> prints with a bullet character have a
  constructor each: \<open>Print_bullet s\<close> is the line of a manual fix suggestion \<open>s\<close>, and
  \<open>Print_available n d\<close> the line of an available check \<open>n\<close> with its description \<open>d\<close>.
\<close>

datatype out =
    Console_print string
  | Console_rule string
  | Print_header
  | Print_check_result string bool string bool "string option"
  | Print_fix_action string
  | Print_suggestion string "string list"
  | Print_summary nat nat nat
  | Print_error string
  | Print_success string
  | Print_json pyval
  | Print_bullet string
  | Print_available string string
  | Progress_add_task string nat
  | Progress_update string
  | Progress_advance

section \<open>The probe contract (checks/base.py)\<close>

text \<open>
  A probe instance is an object with the two methods of \<^verbatim>\<open>BaseCheck\<close>. Its fields are
  hidden in the object: \<open>run\<close> reads the machine \<open>'w\<close> and returns the result with the
  object as \<open>run\<close> has left it, or raises; \<open>fix'\<close> returns its success flag or raises,
  with what it has printed and the machine as it has left it.
\<close>

codatatype 'w BaseCheck =
  BaseCheck (run: "'w \<Rightarrow> exn + CheckResult \<times> 'w BaseCheck")
            (fix': "'w \<Rightarrow> (exn + bool) \<times> out list \<times> 'w")

text \<open>
  An object whose fields are a value of \<open>'s\<close>, from the bodies of its two methods over
  these fields.
\<close>

primcorec object ::
  "('s \<Rightarrow> 'w \<Rightarrow> exn + CheckResult \<times> 's) \<Rightarrow> ('s \<Rightarrow> 'w \<Rightarrow> (exn + bool) \<times> out list \<times> 'w) \<Rightarrow>
   's \<Rightarrow> 'w BaseCheck" where
  "run (object run_body fix_body self) = map_sum id (map_prod id (object run_body fix_body)) \<circ> run_body self"
| "fix' (object run_body fix_body self) = fix_body self"

text \<open>
  A probe class: its two class attributes, and its constructor (the object that
  \<^verbatim>\<open>check_class()\<close> returns).
\<close>

record 'w check_class =
  cls_name :: string
  cls_description :: string
  cls_new :: "'w BaseCheck"

section \<open>The machine\<close>

text \<open>
  What a probe learns from the machine \<open>'w\<close> it runs on, and what its \<open>fix\<close> does to it,
  is taken from a host: sys.platform, the outcome of every private method of a probe that
  queries the machine (PATH lookups, child processes, files, environment variables), the
  calls of psutil, shutil, httpx, subprocess and pathlib that \<open>run\<close> and \<open>fix\<close> make
  themselves, and the format of a float with a given number of decimals
  (\<^verbatim>\<open>f"{x:.1f}"\<close>). A method that can raise has an outcome in \<open>exn + 'a\<close>.
\<close>

text \<open>
  One \<^verbatim>\<open>client.head(url)\<close> of \<open>NetworkCheck.run\<close>, by the handler that takes it: a
  response, \<^verbatim>\<open>httpx.TimeoutException\<close>, \<^verbatim>\<open>httpx.ConnectError\<close>, or any other exception,
  with the name of its type.
\<close>

datatype head_outcome = Response | TimeoutException | ConnectError | OtherException string

record 'w host =
  sys_platform :: string
  NodeJS_get_node_info :: "'w \<Rightarrow> exn + string option \<times> nat list option"
  OpenClaw_get_openclaw_info :: "'w \<Rightarrow> exn + string option \<times> string option"
  OpenClaw_get_home_directory :: "'w \<Rightarrow> exn + string option"
  Docker_check_docker :: "'w \<Rightarrow> exn + string option \<times> bool"
  Docker_check_compose :: "'w \<Rightarrow> exn + string option"
  psutil_virtual_memory_total :: "'w \<Rightarrow> exn + nat"
  shutil_disk_usage_free :: "string \<Rightarrow> 'w \<Rightarrow> exn + nat"
  psutil_cpu_count :: "bool \<Rightarrow> 'w \<Rightarrow> exn + nat option"
  format_float :: "nat \<Rightarrow> real \<Rightarrow> string"
  Config_find_config :: "'w \<Rightarrow> exn + string option"
  Config_parse_config :: "string \<Rightarrow> 'w \<Rightarrow> exn + pyval"
  APIKeys_check_env_keys :: "'w \<Rightarrow> exn + string list \<times> string list"
  APIKeys_check_env_file :: "'w \<Rightarrow> exn + string list \<times> string option"
  APIKeys_check_config_keys :: "'w \<Rightarrow> exn + string list"
  httpx_head :: "string \<Rightarrow> 'w \<Rightarrow> head_outcome"
  subprocess_run :: "string list \<Rightarrow> nat \<Rightarrow> 'w \<Rightarrow> (exn + int \<times> string \<times> string) \<times> 'w"
  Path_home :: "'w \<Rightarrow> exn + string"
  path_join :: "string \<Rightarrow> string \<Rightarrow> string"
  write_config :: "string \<Rightarrow> string \<Rightarrow> pyval \<Rightarrow> 'w \<Rightarrow> (exn + unit) \<times> 'w"

text \<open>\<^verbatim>\<open>str(e)\<close> of an exception.\<close>

fun str_exn :: "exn \<Rightarrow> string" where
  "str_exn (ValueError m) = m"
| "str_exn (TypeError m) = m"
| "str_exn (KeyError m) = m"
| "str_exn (OSError m) = m"
| "str_exn (FileNotFoundError m) = m"
| "str_exn (TimeoutExpired m) = m"
| "str_exn (RuntimeError m) = m"

section \<open>The probes (checks/)\<close>

subsection \<open>NodeJSCheck (checks/nodejs.py)\<close>

record NodeJS_fields =
  NodeJS_version :: "nat list option"
  NodeJS_path :: "string option"

definition NodeJSCheck_name :: string where
  "NodeJSCheck_name = ''Node.js''"

definition NodeJSCheck_description :: string where
  "NodeJSCheck_description = ''Verifies Node.js >= 18.x is installed''"

definition min_version :: "nat list" where
  "min_version = [18, 0, 0]"

definition NodeJSCheck_init :: NodeJS_fields where
  "NodeJSCheck_init = \<lparr>NodeJS_version = None, NodeJS_path = None\<rparr>"

text \<open>The order of two tuples of integers.\<close>

fun tuple_less :: "nat list \<Rightarrow> nat list \<Rightarrow> bool" where
  "tuple_less [] [] = False"
| "tuple_less [] (y # ys) = True"
| "tuple_less (x # xs) [] = False"
| "tuple_less (x # xs) (y # ys) = (x < y \<or> (x = y \<and> tuple_less xs ys))"

text \<open>\<^verbatim>\<open>if not t\<close> for \<^verbatim>\<open>t: tuple | None\<close>.\<close>

fun tuple_truthy :: "nat list option \<Rightarrow> bool" where
  "tuple_truthy None = False"
| "tuple_truthy (Some t) = (t \<noteq> [])"

definition NodeJS_get_install_suggestions :: "'w host \<Rightarrow> string list" where
  "NodeJS_get_install_suggestions h =
     (if sys_platform h = ''darwin'' then
        [''Install via Homebrew: brew install node'',
         ''Or use nvm: curl -o- https://raw.githubusercontent.com/nvm-sh/nvm/v0.39.0/install.sh | bash'',
         ''Then: nvm install 20'']
      else if sys_platform h = ''win32'' then
        [''Download from: https://nodejs.org/en/download/'',
         ''Or use winget: winget install OpenJS.NodeJS.LTS'',
         ''Or use nvm-windows: https://github.com/coreybutler/nvm-windows'']
      else
        [''Install via nvm: curl -o- https://raw.githubusercontent.com/nvm-sh/nvm/v0.39.0/install.sh | bash'',
         ''Then: nvm install 20'',
         ''Or via package manager (Ubuntu): sudo apt install nodejs npm''])"

definition NodeJSCheck_run ::
  "'w host \<Rightarrow> NodeJS_fields \<Rightarrow> 'w \<Rightarrow> exn + CheckResult \<times> NodeJS_fields" where
  "NodeJSCheck_run h self w =
     (case NodeJS_get_node_info h w of
        Inl e \<Rightarrow> Inl e
      | Inr (node_path, version) \<Rightarrow>
          (let self = self\<lparr>NodeJS_path := node_path, NodeJS_version := version\<rparr> in
           if \<not> str_truthy (NodeJS_path self) then
             Inr (\<lparr>name = NodeJSCheck_name, status = FAIL,
                   message = ''Node.js is not installed'',
                   details = Some ''OpenClaw requires Node.js >= 18.x'',
                   can_auto_fix = True,
                   fix_suggestions = NodeJS_get_install_suggestions h\<rparr>, self)
           else if \<not> tuple_truthy (NodeJS_version self) then
             Inr (\<lparr>name = NodeJSCheck_name, status = WARN,
                   message = ''Node.js found but version could not be determined'',
                   details = Some (''Path: '' @ the (NodeJS_path self)),
                   can_auto_fix = False,
                   fix_suggestions = [''Try running 'node --version' manually'']\<rparr>, self)
           else
             (let version_str = join ''.'' (map str_nat (the (NodeJS_version self))) in
              if tuple_less (the (NodeJS_version self)) min_version then
                (let min_str = join ''.'' (map str_nat min_version) in
                 Inr (\<lparr>name = NodeJSCheck_name, status = FAIL,
                       message = ''Node.js v'' @ version_str @ '' is below minimum v'' @ min_str,
                       details = None,
                       can_auto_fix = True,
                       fix_suggestions = NodeJS_get_install_suggestions h\<rparr>, self))
              else
                Inr (\<lparr>name = NodeJSCheck_name, status = PASS,
                      message = ''Node.js v'' @ version_str @ '' installed'',
                      details = Some (''Path: '' @ the (NodeJS_path self)),
                      can_auto_fix = False,
                      fix_suggestions = []\<rparr>, self))))"

text \<open>
  \<open>fix\<close> prints the installation steps and returns \<^verbatim>\<open>False\<close>; its comment says:
  "Can't auto-install Node.js, but we show suggestions".
\<close>

definition NodeJSCheck_fix ::
  "'w host \<Rightarrow> NodeJS_fields \<Rightarrow> 'w \<Rightarrow> (exn + bool) \<times> out list \<times> 'w" where
  "NodeJSCheck_fix h self w =
     (Inr False,
      [Print_suggestion ''Install Node.js'' (NodeJS_get_install_suggestions h),
       Console_print (CHR 0x0A #
         ''[dim]After installing Node.js, run openclaw-doctor again.[/dim]'')],
      w)"

definition NodeJSCheck :: "'w host \<Rightarrow> 'w check_class" where
  "NodeJSCheck h =
     \<lparr>cls_name = NodeJSCheck_name, cls_description = NodeJSCheck_description,
      cls_new = object (NodeJSCheck_run h) (NodeJSCheck_fix h) NodeJSCheck_init\<rparr>"

subsection \<open>OpenClawCheck (checks/openclaw.py)\<close>

record OpenClaw_fields =
  OpenClaw_version :: "string option"
  OpenClaw_path :: "string option"
  OpenClaw_home_dir :: "string option"

definition OpenClawCheck_name :: string where
  "OpenClawCheck_name = ''OpenClaw''"

definition OpenClawCheck_description :: string where
  "OpenClawCheck_description = ''Checks OpenClaw CLI installation''"

definition OpenClawCheck_init :: OpenClaw_fields where
  "OpenClawCheck_init =
     \<lparr>OpenClaw_version = None, OpenClaw_path = None, OpenClaw_home_dir = None\<rparr>"

text \<open>
  \<open>_home_dir\<close> is a \<^verbatim>\<open>Path\<close> or \<^verbatim>\<open>None\<close>: every \<^verbatim>\<open>Path\<close> is true, so only
  \<^verbatim>\<open>None\<close> is false.
\<close>

definition OpenClawCheck_run ::
  "'w host \<Rightarrow> OpenClaw_fields \<Rightarrow> 'w \<Rightarrow> exn + CheckResult \<times> OpenClaw_fields" where
  "OpenClawCheck_run h self w =
     (case OpenClaw_get_openclaw_info h w of
        Inl e \<Rightarrow> Inl e
      | Inr (openclaw_path, version) \<Rightarrow>
          (case OpenClaw_get_home_directory h w of
             Inl e \<Rightarrow> Inl e
           | Inr home_dir \<Rightarrow>
               (let self = self\<lparr>OpenClaw_path := openclaw_path, OpenClaw_version := version,
                               OpenClaw_home_dir := home_dir\<rparr> in
                if \<not> str_truthy (OpenClaw_path self) then
                  Inr (\<lparr>name = OpenClawCheck_name, status = FAIL,
                        message = ''OpenClaw CLI is not installed'',
                        details = None,
                        can_auto_fix = True,
                        fix_suggestions =
                          [''Run the OpenClaw installer:'',
                           ''curl -fsSL https://openclawd.ai/install.sh | bash'',
                           ''Or visit: https://github.com/openclaw/openclaw'']\<rparr>, self)
                else if \<not> str_truthy (OpenClaw_version self) then
                  Inr (\<lparr>name = OpenClawCheck_name, status = WARN,
                        message = ''OpenClaw found but version could not be determined'',
                        details = Some (''Path: '' @ the (OpenClaw_path self)),
                        can_auto_fix = False,
                        fix_suggestions = [''Try running 'openclaw --version' manually'']\<rparr>, self)
                else
                  Inr (\<lparr>name = OpenClawCheck_name, status = PASS,
                        message = ''OpenClaw v'' @ the (OpenClaw_version self) @ '' installed'',
                        details = Some (''Path: '' @ the (OpenClaw_path self) @
                          (case OpenClaw_home_dir self of
                             None \<Rightarrow> []
                           | Some d \<Rightarrow> CHR 0x0A # ''Home: '' @ d)),
                        can_auto_fix = False,
                        fix_suggestions = []\<rparr>, self))))"

definition OpenClawCheck_fix ::
  "'w host \<Rightarrow> OpenClaw_fields \<Rightarrow> 'w \<Rightarrow> (exn + bool) \<times> out list \<times> 'w" where
  "OpenClawCheck_fix h self w =
     (if sys_platform h = ''win32'' then
        (Inr False,
         [Print_suggestion ''Install OpenClaw on Windows''
            [''Open PowerShell as Administrator'',
             ''Run: iwr -useb https://openclawd.ai/install.ps1 | iex'',
             ''Or download from: https://github.com/openclaw/openclaw/releases'']],
         w)
      else
        (let before = [Print_fix_action ''Attempting to install OpenClaw...'',
                       Console_print ''[dim]Running install script...[/dim]''] in
         case subprocess_run h
                [''bash'', ''-c'', ''curl -fsSL https://openclawd.ai/install.sh | bash''] 120 w of
           (Inr (returncode, stdout, stderr), w') \<Rightarrow>
             (if returncode = 0 then
                (Inr True,
                 before @ [Console_print ''[green]OpenClaw installed successfully![/green]''], w')
              else
                (Inr False,
                 before @
                 [Console_print (''[red]Installation failed:[/red] '' @ stderr),
                  Print_suggestion ''Manual Installation''
                    [''Visit: https://github.com/openclaw/openclaw'',
                     ''Follow the installation instructions for your OS'']], w'))
         | (Inl (TimeoutExpired m), w') \<Rightarrow>
             (Inr False, before @ [Console_print ''[red]Installation timed out[/red]''], w')
         | (Inl (FileNotFoundError m), w') \<Rightarrow>
             (Inr False,
              before @
              [Print_suggestion ''Install OpenClaw''
                 [''curl -fsSL https://openclawd.ai/install.sh | bash'',
                  ''Or visit: https://github.com/openclaw/openclaw'']], w')
         | (Inl e, w') \<Rightarrow> (Inl e, before, w')))"

definition OpenClawCheck :: "'w host \<Rightarrow> 'w check_class" where
  "OpenClawCheck h =
     \<lparr>cls_name = OpenClawCheck_name, cls_description = OpenClawCheck_description,
      cls_new = object (OpenClawCheck_run h) (OpenClawCheck_fix h) OpenClawCheck_init\<rparr>"

subsection \<open>DockerCheck (checks/docker.py)\<close>

record Docker_fields =
  Docker_docker_version :: "string option"
  Docker_compose_version :: "string option"
  Docker_docker_running :: bool

definition DockerCheck_name :: string where
  "DockerCheck_name = ''Docker''"

definition DockerCheck_description :: string where
  "DockerCheck_description = ''Validates Docker & Compose setup (optional)''"

definition DockerCheck_init :: Docker_fields where
  "DockerCheck_init =
     \<lparr>Docker_docker_version = None, Docker_compose_version = None,
      Docker_docker_running = False\<rparr>"

definition Docker_get_install_suggestions :: "'w host \<Rightarrow> string list" where
  "Docker_get_install_suggestions h =
     (if sys_platform h = ''darwin'' then
        [''Install Docker Desktop: https://www.docker.com/products/docker-desktop/'',
         ''Or via Homebrew: brew install --cask docker'']
      else if sys_platform h = ''win32'' then
        [''Install Docker Desktop: https://www.docker.com/products/docker-desktop/'',
         ''Or via winget: winget install Docker.DockerDesktop'']
      else
        [''Install Docker: https://docs.docker.com/engine/install/'',
         ''For Ubuntu: sudo apt install docker.io docker-compose-v2'',
         ''Then: sudo systemctl enable --now docker''])"

definition DockerCheck_run ::
  "'w host \<Rightarrow> Docker_fields \<Rightarrow> 'w \<Rightarrow> exn + CheckResult \<times> Docker_fields" where
  "DockerCheck_run h self w =
     (case Docker_check_docker h w of
        Inl e \<Rightarrow> Inl e
      | Inr (docker_version, docker_running) \<Rightarrow>
          (case Docker_check_compose h w of
             Inl e \<Rightarrow> Inl e
           | Inr compose_version \<Rightarrow>
               (let self = self\<lparr>Docker_docker_version := docker_version,
                               Docker_docker_running := docker_running,
                               Docker_compose_version := compose_version\<rparr> in
                if \<not> str_truthy (Docker_docker_version self) then
                  Inr (\<lparr>name = DockerCheck_name, status = WARN,
                        message = ''Docker is not installed (optional for desktop use)'',
                        details = Some ''Docker is only required for server deployments'',
                        can_auto_fix = False,
                        fix_suggestions = Docker_get_install_suggestions h\<rparr>, self)
                else if \<not> Docker_docker_running self then
                  Inr (\<lparr>name = DockerCheck_name, status = WARN,
                        message = ''Docker '' @ the (Docker_docker_version self) @
                                  '' installed but not running'',
                        details = None,
                        can_auto_fix = True,
                        fix_suggestions = [''Start Docker Desktop or the Docker daemon'']\<rparr>, self)
                else
                  Inr (\<lparr>name = DockerCheck_name, status = PASS,
                        message = ''Docker '' @ the (Docker_docker_version self) @ '' running'',
                        details = Some (''Docker '' @ the (Docker_docker_version self) @
                          (if str_truthy (Docker_compose_version self)
                           then '', Compose '' @ the (Docker_compose_version self)
                           else '' (Compose not found)'')),
                        can_auto_fix = False,
                        fix_suggestions = []\<rparr>, self))))"

definition Docker_start_manually :: out where
  "Docker_start_manually =
     Print_suggestion ''Start Docker Manually''
       [''On macOS: Open Docker Desktop application'',
        ''On Linux: sudo systemctl start docker'',
        ''On Windows: Start Docker Desktop from Start Menu'']"

text \<open>
  In \<open>fix\<close>, both calls of \<^verbatim>\<open>subprocess.run\<close> stand under \<^verbatim>\<open>except Exception: pass\<close>:
  after an exception the manual steps are printed.
\<close>

definition DockerCheck_fix ::
  "'w host \<Rightarrow> Docker_fields \<Rightarrow> 'w \<Rightarrow> (exn + bool) \<times> out list \<times> 'w" where
  "DockerCheck_fix h self w =
     (if \<not> str_truthy (Docker_docker_version self) then
        (Inr False, [Print_suggestion ''Install Docker'' (Docker_get_install_suggestions h)], w)
      else if \<not> Docker_docker_running self then
        (let before = [Print_fix_action ''Attempting to start Docker...''] in
         if sys_platform h = ''darwin'' then
           (case subprocess_run h [''open'', ''-a'', ''Docker''] 10 w of
              (Inr completed, w') \<Rightarrow>
                (Inr True,
                 before @
                 [Console_print ''[dim]Docker Desktop is starting...[/dim]'',
                  Console_print ''[dim]Please wait a moment and run openclaw-doctor again.[/dim]''],
                 w')
            | (Inl e, w') \<Rightarrow> (Inr False, before @ [Docker_start_manually], w'))
         else if sys_platform h = ''linux'' then
           (case subprocess_run h [''sudo'', ''systemctl'', ''start'', ''docker''] 30 w of
              (Inr (returncode, stdout, stderr), w') \<Rightarrow>
                (if returncode = 0 then
                   (Inr True, before @ [Console_print ''[green]Docker daemon started![/green]''], w')
                 else (Inr False, before @ [Docker_start_manually], w'))
            | (Inl e, w') \<Rightarrow> (Inr False, before @ [Docker_start_manually], w'))
         else (Inr False, before @ [Docker_start_manually], w))
      else (Inr False, [], w))"

definition DockerCheck :: "'w host \<Rightarrow> 'w check_class" where
  "DockerCheck h =
     \<lparr>cls_name = DockerCheck_name, cls_description = DockerCheck_description,
      cls_new = object (DockerCheck_run h) (DockerCheck_fix h) DockerCheck_init\<rparr>"

subsection \<open>SystemCheck (checks/system.py)\<close>

record System_fields =
  System_ram_gb :: real
  System_disk_gb :: real
  System_cpu_cores :: nat
  System_issues :: "string list"
  System_warnings :: "string list"

definition SystemCheck_name :: string where
  "SystemCheck_name = ''System''"

definition SystemCheck_description :: string where
  "SystemCheck_description = ''RAM (2GB+), Disk (20GB+), CPU''"

definition MIN_RAM_GB :: nat where "MIN_RAM_GB = 2"
definition RECOMMENDED_RAM_GB :: nat where "RECOMMENDED_RAM_GB = 4"
definition MIN_DISK_GB :: nat where "MIN_DISK_GB = 20"
definition MIN_CPU_CORES :: nat where "MIN_CPU_CORES = 2"

definition SystemCheck_init :: System_fields where
  "SystemCheck_init =
     \<lparr>System_ram_gb = 0, System_disk_gb = 0, System_cpu_cores = 0,
      System_issues = [], System_warnings = []\<rparr>"

definition System_get_suggestions :: "System_fields \<Rightarrow> string list" where
  "System_get_suggestions self =
     (if System_ram_gb self < real RECOMMENDED_RAM_GB then
        [''Consider upgrading to '' @ str_nat RECOMMENDED_RAM_GB @
         ''GB+ RAM for better performance'']
      else []) @
     (if System_disk_gb self < real MIN_DISK_GB then
        [''Free up disk space by:'',
         ''  - Removing unused applications'',
         ''  - Clearing temporary files'',
         ''  - Moving large files to external storage'']
      else [])"

text \<open>
  \<^verbatim>\<open>psutil.cpu_count(logical=False) or psutil.cpu_count() or 1\<close>: a count that is
  \<^verbatim>\<open>None\<close> or 0 is false, and the next operand is evaluated.
\<close>

definition System_cpu_count :: "'w host \<Rightarrow> 'w \<Rightarrow> exn + nat" where
  "System_cpu_count h w =
     (case psutil_cpu_count h False w of
        Inl e \<Rightarrow> Inl e
      | Inr (Some (Suc n)) \<Rightarrow> Inr (Suc n)
      | Inr physical \<Rightarrow>
          (case psutil_cpu_count h True w of
             Inl e \<Rightarrow> Inl e
           | Inr (Some (Suc n)) \<Rightarrow> Inr (Suc n)
           | Inr logical \<Rightarrow> Inr 1))"

text \<open>
  \<open>run\<close> has four parts, under the comments "Check RAM", "Check disk space",
  "Check CPU cores" and "Build result". The two sizes are byte counts divided by
  \<^verbatim>\<open>1024 ** 3\<close>. Python divides in binary floating point, where a division by a power
  of two is exact and the rounding of a large integer is monotonic, so the comparisons
  with 2, 4 and 20 are those of the exact quotients.
\<close>

definition System_check_ram :: "'w host \<Rightarrow> System_fields \<Rightarrow> 'w \<Rightarrow> exn + System_fields" where
  "System_check_ram h self w =
     (case psutil_virtual_memory_total h w of
        Inl e \<Rightarrow> Inl e
      | Inr mem_total \<Rightarrow>
          (let self = self\<lparr>System_ram_gb := real mem_total / 1024 ^ 3\<rparr> in
           Inr (if System_ram_gb self < real MIN_RAM_GB then
                  self\<lparr>System_issues := System_issues self @
                    [''RAM: '' @ format_float h 1 (System_ram_gb self) @ ''GB (minimum '' @
                     str_nat MIN_RAM_GB @ ''GB required)'']\<rparr>
                else if System_ram_gb self < real RECOMMENDED_RAM_GB then
                  self\<lparr>System_warnings := System_warnings self @
                    [''RAM: '' @ format_float h 1 (System_ram_gb self) @ ''GB (recommended '' @
                     str_nat RECOMMENDED_RAM_GB @ ''GB+)'']\<rparr>
                else self)))"

definition System_check_disk :: "'w host \<Rightarrow> System_fields \<Rightarrow> 'w \<Rightarrow> exn + System_fields" where
  "System_check_disk h self w =
     (let path = (if sys_platform h = ''win32'' then ''C:'' @ [CHR 0x5C] else ''/'') in
      case shutil_disk_usage_free h path w of
        Inl e \<Rightarrow> Inl e
      | Inr disk_free \<Rightarrow>
          (let self = self\<lparr>System_disk_gb := real disk_free / 1024 ^ 3\<rparr> in
           Inr (if System_disk_gb self < real MIN_DISK_GB then
                  self\<lparr>System_issues := System_issues self @
                    [''Disk: '' @ format_float h 1 (System_disk_gb self) @
                     ''GB free (minimum '' @ str_nat MIN_DISK_GB @ ''GB required)'']\<rparr>
                else self)))"

definition System_check_cpu :: "'w host \<Rightarrow> System_fields \<Rightarrow> 'w \<Rightarrow> exn + System_fields" where
  "System_check_cpu h self w =
     (case System_cpu_count h w of
        Inl e \<Rightarrow> Inl e
      | Inr cores \<Rightarrow>
          (let self = self\<lparr>System_cpu_cores := cores\<rparr> in
           Inr (if System_cpu_cores self < MIN_CPU_CORES then
                  self\<lparr>System_warnings := System_warnings self @
                    [''CPU: '' @ str_nat (System_cpu_cores self) @ '' cores (recommended '' @
                     str_nat MIN_CPU_CORES @ ''+)'']\<rparr>
                else self)))"

definition System_build_result :: "'w host \<Rightarrow> System_fields \<Rightarrow> CheckResult" where
  "System_build_result h self =
     (if System_issues self \<noteq> [] then
        \<lparr>name = SystemCheck_name, status = FAIL,
         message = ''System does not meet minimum requirements'',
         details = Some (join [CHR 0x0A] (System_issues self @ System_warnings self)),
         can_auto_fix = False,
         fix_suggestions = System_get_suggestions self\<rparr>
      else
        (let summary = format_float h 1 (System_ram_gb self) @ ''GB RAM, '' @
                       format_float h 0 (System_disk_gb self) @ ''GB free, '' @
                       str_nat (System_cpu_cores self) @ '' cores''
         in
         if System_warnings self \<noteq> [] then
           \<lparr>name = SystemCheck_name, status = WARN,
            message = ''System meets minimum requirements ('' @ summary @ '')'',
            details = Some (join [CHR 0x0A] (System_warnings self)),
            can_auto_fix = False,
            fix_suggestions = System_get_suggestions self\<rparr>
         else
           \<lparr>name = SystemCheck_name, status = PASS,
            message = ''System requirements met ('' @ summary @ '')'',
            details = None,
            can_auto_fix = False,
            fix_suggestions = []\<rparr>))"

definition SystemCheck_run ::
  "'w host \<Rightarrow> System_fields \<Rightarrow> 'w \<Rightarrow> exn + CheckResult \<times> System_fields" where
  "SystemCheck_run h self w =
     (case System_check_ram h (self\<lparr>System_issues := [], System_warnings := []\<rparr>) w of
        Inl e \<Rightarrow> Inl e
      | Inr self \<Rightarrow>
          (case System_check_disk h self w of
             Inl e \<Rightarrow> Inl e
           | Inr self \<Rightarrow>
               (case System_check_cpu h self w of
                  Inl e \<Rightarrow> Inl e
                | Inr self \<Rightarrow> Inr (System_build_result h self, self))))"

definition SystemCheck_fix ::
  "'w host \<Rightarrow> System_fields \<Rightarrow> 'w \<Rightarrow> (exn + bool) \<times> out list \<times> 'w" where
  "SystemCheck_fix h self w =
     (Inr False,
      [Print_suggestion ''System Requirements''
         (if System_get_suggestions self \<noteq> [] then System_get_suggestions self
          else [''Your system meets the minimum requirements.'',
                ''For best performance, ensure you have 4GB+ RAM and 20GB+ free disk space.''])],
      w)"

definition SystemCheck :: "'w host \<Rightarrow> 'w check_class" where
  "SystemCheck h =
     \<lparr>cls_name = SystemCheck_name, cls_description = SystemCheck_description,
      cls_new = object (SystemCheck_run h) (SystemCheck_fix h) SystemCheck_init\<rparr>"

subsection \<open>ConfigCheck (checks/config.py)\<close>

record Config_fields =
  Config_config_path :: "string option"
  Config_config :: pyval
  Config_missing_fields :: "string list"

definition ConfigCheck_name :: string where
  "ConfigCheck_name = ''Config''"

definition ConfigCheck_description :: string where
  "ConfigCheck_description = ''Validates OpenClaw configuration''"

definition REQUIRED_FIELDS :: "string list" where
  "REQUIRED_FIELDS = [''provider'']"

definition ConfigCheck_init :: Config_fields where
  "ConfigCheck_init =
     \<lparr>Config_config_path = None, Config_config = PyNone, Config_missing_fields = []\<rparr>"

text \<open>
  \<^verbatim>\<open>field in config\<close> and \<^verbatim>\<open>config[field]\<close> for a string \<open>field\<close>. The parsed file is
  whatever value the document holds: the two operations raise \<^verbatim>\<open>TypeError\<close> on a value
  that has no membership test or no string index (the wording is that of CPython 3.12).
\<close>

fun type_name :: "pyval \<Rightarrow> string" where
  "type_name PyNone = ''NoneType''"
| "type_name (PyBool b) = ''bool''"
| "type_name (PyInt i) = ''int''"
| "type_name (PyFloat x) = ''float''"
| "type_name (PyStr s) = ''str''"
| "type_name (PyList xs) = ''list''"
| "type_name (PyDict kvs) = ''dict''"

fun py_contains :: "pyval \<Rightarrow> string \<Rightarrow> exn + bool" where
  "py_contains (PyDict kvs) field = Inr (PyStr field \<in> set (map fst kvs))"
| "py_contains (PyList xs) field = Inr (PyStr field \<in> set xs)"
| "py_contains (PyStr s) field = Inr (is_substring field s)"
| "py_contains v field =
     Inl (TypeError (''argument of type '' @ [CHR 0x27] @ type_name v @ [CHR 0x27] @
                     '' is not iterable''))"

fun py_getitem :: "pyval \<Rightarrow> string \<Rightarrow> exn + pyval" where
  "py_getitem (PyDict kvs) field =
     (case map_of kvs (PyStr field) of
        None \<Rightarrow> Inl (KeyError ([CHR 0x27] @ field @ [CHR 0x27]))
      | Some v \<Rightarrow> Inr v)"
| "py_getitem (PyList xs) field =
     Inl (TypeError ''list indices must be integers or slices, not str'')"
| "py_getitem (PyStr s) field =
     Inl (TypeError (''string indices must be integers, not 'str'' @ [CHR 0x27]))"
| "py_getitem v field =
     Inl (TypeError ([CHR 0x27] @ type_name v @ [CHR 0x27] @ '' object is not subscriptable''))"

text \<open>
  \<open>_validate_config\<close>: the loop over the required fields, with
  \<^verbatim>\<open>if field not in config or not config[field]\<close>.
\<close>

fun Config_validate_config :: "pyval \<Rightarrow> string list \<Rightarrow> exn + string list" where
  "Config_validate_config config [] = Inr []"
| "Config_validate_config config (field # rest) =
     (case py_contains config field of
        Inl e \<Rightarrow> Inl e
      | Inr present \<Rightarrow>
          (case (if \<not> present then Inr True
                 else map_sum id (\<lambda>v. \<not> truthy v) (py_getitem config field)) of
             Inl e \<Rightarrow> Inl e
           | Inr is_missing \<Rightarrow>
               (case Config_validate_config config rest of
                  Inl e \<Rightarrow> Inl e
                | Inr missing \<Rightarrow> Inr ((if is_missing then [field] else []) @ missing))))"

text \<open>
  \<open>run\<close> catches \<^verbatim>\<open>ValueError\<close> around \<open>_parse_config\<close> only; any other exception, and any
  exception of \<open>_find_config\<close> or \<open>_validate_config\<close>, leaves \<open>run\<close>.
\<close>

definition ConfigCheck_run ::
  "'w host \<Rightarrow> Config_fields \<Rightarrow> 'w \<Rightarrow> exn + CheckResult \<times> Config_fields" where
  "ConfigCheck_run h self w =
     (case Config_find_config h w of
        Inl e \<Rightarrow> Inl e
      | Inr None \<Rightarrow>
          Inr (\<lparr>name = ConfigCheck_name, status = WARN,
                message = ''No OpenClaw config file found'',
                details = Some ''Config will be created during OpenClaw setup'',
                can_auto_fix = True,
                fix_suggestions =
                  [''Run 'openclaw init' to create initial config'',
                   ''Or create ~/.openclaw/config.yaml manually'']\<rparr>,
               self\<lparr>Config_config_path := None\<rparr>)
      | Inr (Some config_path) \<Rightarrow>
          (let self = self\<lparr>Config_config_path := Some config_path\<rparr> in
           case Config_parse_config h config_path w of
             Inl (ValueError e) \<Rightarrow>
               Inr (\<lparr>name = ConfigCheck_name, status = FAIL,
                     message = ''Config file has syntax errors'',
                     details = Some e,
                     can_auto_fix = False,
                     fix_suggestions =
                       [''Fix the syntax errors in: '' @ config_path,
                        ''Use a YAML/JSON validator to check the file'']\<rparr>, self)
           | Inl e \<Rightarrow> Inl e
           | Inr config \<Rightarrow>
               (let self = self\<lparr>Config_config := config\<rparr> in
                if \<not> truthy (Config_config self) then
                  Inr (\<lparr>name = ConfigCheck_name, status = WARN,
                        message = ''Config file is empty'',
                        details = Some (''Path: '' @ config_path),
                        can_auto_fix = True,
                        fix_suggestions =
                          [''Add configuration to the file or run 'openclaw init'' @ [CHR 0x27]]\<rparr>,
                       self)
                else
                  (case Config_validate_config (Config_config self) REQUIRED_FIELDS of
                     Inl e \<Rightarrow> Inl e
                   | Inr missing \<Rightarrow>
                       (let self = self\<lparr>Config_missing_fields := missing\<rparr> in
                        if Config_missing_fields self \<noteq> [] then
                          Inr (\<lparr>name = ConfigCheck_name, status = WARN,
                                message = ''Config missing fields: '' @
                                          join '', '' (Config_missing_fields self),
                                details = Some (''Path: '' @ config_path),
                                can_auto_fix = False,
                                fix_suggestions =
                                  [''Add the following to your config: '' @
                                   join '', '' (Config_missing_fields self),
                                   ''Run 'openclaw init' to reconfigure'']\<rparr>, self)
                        else
                          Inr (\<lparr>name = ConfigCheck_name, status = PASS,
                                message = ''Configuration valid'',
                                details = Some (''Path: '' @ config_path),
                                can_auto_fix = False,
                                fix_suggestions = []\<rparr>, self))))))"

definition default_config :: pyval where
  "default_config = PyDict
     [(PyStr ''provider'', PyStr ''anthropic''),
      (PyStr ''model'', PyStr ''claude-3-5-sonnet-20241022''),
      (PyStr ''channels'', PyList []),
      (PyStr ''skills'', PyList [])]"

text \<open>
  \<open>fix\<close> with no config file found: \<open>write_config dir path config\<close> of the host is the
  \<^verbatim>\<open>mkdir\<close> of the directory and the write of the YAML dump of \<open>config\<close> to the path,
  both under \<^verbatim>\<open>except Exception\<close>. With a config file, \<open>fix\<close> only prints.
\<close>

definition ConfigCheck_fix ::
  "'w host \<Rightarrow> Config_fields \<Rightarrow> 'w \<Rightarrow> (exn + bool) \<times> out list \<times> 'w" where
  "ConfigCheck_fix h self w =
     (case Config_config_path self of
        None \<Rightarrow>
          (case Path_home h w of
             Inl e \<Rightarrow> (Inl e, [], w)
           | Inr home \<Rightarrow>
               (let config_dir = path_join h home ''.openclaw'';
                    config_path = path_join h config_dir ''config.yaml'';
                    before = [Print_fix_action ''Creating default OpenClaw config...'']
                in case write_config h config_dir config_path default_config w of
                     (Inr u, w') \<Rightarrow>
                       (Inr True,
                        before @
                        [Console_print (''[green]Created config at:[/green] '' @ config_path),
                         Console_print
                           ''[dim]Edit this file to add your API keys and configure channels.[/dim]''],
                        w')
                   | (Inl e, w') \<Rightarrow>
                       (Inr False,
                        before @
                        [Console_print (''[red]Failed to create config:[/red] '' @ str_exn e)],
                        w')))
      | Some config_path \<Rightarrow>
          (Inr False,
           [Print_suggestion ''Fix Config Issues''
              [''Edit your config file: '' @ config_path,
               ''Or run 'openclaw init' to reconfigure'']],
           w))"

definition ConfigCheck :: "'w host \<Rightarrow> 'w check_class" where
  "ConfigCheck h =
     \<lparr>cls_name = ConfigCheck_name, cls_description = ConfigCheck_description,
      cls_new = object (ConfigCheck_run h) (ConfigCheck_fix h) ConfigCheck_init\<rparr>"

subsection \<open>APIKeysCheck (checks/api_keys.py)\<close>

record APIKeys_fields =
  APIKeys_found_keys :: "string list"
  APIKeys_invalid_keys :: "string list"
  APIKeys_config_keys :: "string list"
  APIKeys_env_file_keys :: "string list"
  APIKeys_env_file_path :: "string option"

definition APIKeysCheck_name :: string where
  "APIKeysCheck_name = ''API Keys''"

definition APIKeysCheck_description :: string where
  "APIKeysCheck_description = ''Checks AI provider keys configured''"

definition APIKeysCheck_init :: APIKeys_fields where
  "APIKeysCheck_init =
     \<lparr>APIKeys_found_keys = [], APIKeys_invalid_keys = [], APIKeys_config_keys = [],
      APIKeys_env_file_keys = [], APIKeys_env_file_path = None\<rparr>"

definition APIKeys_mask_key_name :: "string \<Rightarrow> string" where
  "APIKeys_mask_key_name key_name = title (replace ''_'' '' '' (replace ''_API_KEY'' [] key_name))"

definition APIKeysCheck_run ::
  "'w host \<Rightarrow> APIKeys_fields \<Rightarrow> 'w \<Rightarrow> exn + CheckResult \<times> APIKeys_fields" where
  "APIKeysCheck_run h self w =
     (case APIKeys_check_env_keys h w of
        Inl e \<Rightarrow> Inl e
      | Inr (found, invalid) \<Rightarrow>
     (case APIKeys_check_env_file h w of
        Inl e \<Rightarrow> Inl e
      | Inr (env_file_keys, env_file_path) \<Rightarrow>
     (case APIKeys_check_config_keys h w of
        Inl e \<Rightarrow> Inl e
      | Inr config_keys \<Rightarrow>
     (let self = self\<lparr>APIKeys_found_keys := found, APIKeys_invalid_keys := invalid,
                     APIKeys_env_file_keys := env_file_keys,
                     APIKeys_env_file_path := env_file_path,
                     APIKeys_config_keys := config_keys\<rparr>;
          all_keys = APIKeys_found_keys self @ APIKeys_env_file_keys self @
                     APIKeys_config_keys self
      in
      if APIKeys_invalid_keys self \<noteq> [] then
        Inr (\<lparr>name = APIKeysCheck_name, status = WARN,
              message = ''Some API keys appear invalid: '' @
                        join '', '' (APIKeys_invalid_keys self),
              details = Some ''Keys may be malformed or using old format'',
              can_auto_fix = False,
              fix_suggestions =
                [''Verify your API keys are correct'',
                 ''Get new keys from your AI provider's dashboard'']\<rparr>, self)
      else if all_keys = [] then
        Inr (\<lparr>name = APIKeysCheck_name, status = WARN,
              message = ''No AI provider API keys found'',
              details = Some ''OpenClaw requires at least one AI provider API key'',
              can_auto_fix = True,
              fix_suggestions =
                [''Set environment variable: export ANTHROPIC_API_KEY=your_key'',
                 ''Or create ~/.openclaw/.env file with your keys'',
                 ''Or add to ~/.openclaw/config.yaml'',
                 ''Get API keys from:'',
                 ''  - Anthropic: https://console.anthropic.com/'',
                 ''  - OpenAI: https://platform.openai.com/'',
                 ''  - Google: https://aistudio.google.com/'']\<rparr>, self)
      else
        (let masked = map APIKeys_mask_key_name all_keys in
         Inr (\<lparr>name = APIKeysCheck_name, status = PASS,
               message = ''API keys configured ('' @ str_nat (length all_keys) @ '' found)'',
               details = Some (''Found: '' @ join '', '' masked),
               can_auto_fix = False,
               fix_suggestions = []\<rparr>, self))))))"

text \<open>\<open>fix\<close> prints where to get a key and how to set it, and returns \<^verbatim>\<open>False\<close>.\<close>

definition APIKeysCheck_fix ::
  "'w host \<Rightarrow> APIKeys_fields \<Rightarrow> 'w \<Rightarrow> (exn + bool) \<times> out list \<times> 'w" where
  "APIKeysCheck_fix h self w =
     (Inr False,
      [Console_print (CHR 0x0A # ''[bold]Setting up AI Provider API Keys[/bold]'' @ [CHR 0x0A]),
       Print_suggestion ''Get an API Key''
         [''[bold]Anthropic (Claude)[/bold] - Recommended'',
          ''  Visit: https://console.anthropic.com/'',
          ''  Set: export ANTHROPIC_API_KEY=sk-ant-...'',
          [],
          ''[bold]OpenAI (GPT)[/bold]'',
          ''  Visit: https://platform.openai.com/api-keys'',
          ''  Set: export OPENAI_API_KEY=sk-...'',
          [],
          ''[bold]Google (Gemini)[/bold]'',
          ''  Visit: https://aistudio.google.com/apikey'',
          ''  Set: export GOOGLE_API_KEY=AIza...'',
          [],
          ''[bold]Groq (Llama/Mixtral)[/bold]'',
          ''  Visit: https://console.groq.com/keys'',
          ''  Set: export GROQ_API_KEY=gsk_...'']] @
      (if sys_platform h = ''win32'' then
         [Console_print (CHR 0x0A # ''[dim]On Windows, use:[/dim]''),
          Console_print ''[dim]  $env:ANTHROPIC_API_KEY = 'your_key'[/dim]'',
          Console_print ''[dim]Or set via System Environment Variables[/dim]'']
       else
         [Console_print
            (CHR 0x0A # ''[dim]Add to your ~/.bashrc or ~/.zshrc for persistence[/dim]'')]),
      w)"

definition APIKeysCheck :: "'w host \<Rightarrow> 'w check_class" where
  "APIKeysCheck h =
     \<lparr>cls_name = APIKeysCheck_name, cls_description = APIKeysCheck_description,
      cls_new = object (APIKeysCheck_run h) (APIKeysCheck_fix h) APIKeysCheck_init\<rparr>"

subsection \<open>NetworkCheck (checks/network.py)\<close>

record Network_fields =
  Network_reachable :: "string list"
  Network_unreachable :: "string list"

definition NetworkCheck_name :: string where
  "NetworkCheck_name = ''Network''"

definition NetworkCheck_description :: string where
  "NetworkCheck_description = ''Tests connectivity to AI providers''"

definition ENDPOINTS :: "(string \<times> string) list" where
  "ENDPOINTS =
     [(''Anthropic'', ''https://api.anthropic.com''),
      (''OpenAI'', ''https://api.openai.com''),
      (''Google AI'', ''https://generativelanguage.googleapis.com''),
      (''Groq'', ''https://api.groq.com'')]"

definition NetworkCheck_init :: Network_fields where
  "NetworkCheck_init = \<lparr>Network_reachable = [], Network_unreachable = []\<rparr>"

text \<open>The loop over the endpoints: every exception of a request is caught.\<close>

fun Network_endpoints_loop ::
  "'w host \<Rightarrow> 'w \<Rightarrow> (string \<times> string) list \<Rightarrow> Network_fields \<Rightarrow> Network_fields" where
  "Network_endpoints_loop h w [] self = self"
| "Network_endpoints_loop h w ((endpoint, url) # rest) self =
     Network_endpoints_loop h w rest
       (case httpx_head h url w of
          Response \<Rightarrow> self\<lparr>Network_reachable := Network_reachable self @ [endpoint]\<rparr>
        | TimeoutException \<Rightarrow>
            self\<lparr>Network_unreachable := Network_unreachable self @ [endpoint @ '' (timeout)'']\<rparr>
        | ConnectError \<Rightarrow>
            self\<lparr>Network_unreachable :=
                   Network_unreachable self @ [endpoint @ '' (connection failed)'']\<rparr>
        | OtherException type_of_e \<Rightarrow>
            self\<lparr>Network_unreachable :=
                   Network_unreachable self @ [endpoint @ '' ('' @ type_of_e @ '')'']\<rparr>)"

definition Network_get_suggestions :: "string list" where
  "Network_get_suggestions =
     [''Check your internet connection'',
      ''If behind a proxy, configure HTTP_PROXY and HTTPS_PROXY'',
      ''Check if firewall is blocking outbound connections'',
      ''Try: curl https://api.anthropic.com to test manually'']"

definition NetworkCheck_run ::
  "'w host \<Rightarrow> Network_fields \<Rightarrow> 'w \<Rightarrow> exn + CheckResult \<times> Network_fields" where
  "NetworkCheck_run h self w =
     (let self = Network_endpoints_loop h w ENDPOINTS
                   (self\<lparr>Network_reachable := [], Network_unreachable := []\<rparr>)
      in
      if Network_reachable self = [] then
        Inr (\<lparr>name = NetworkCheck_name, status = FAIL,
              message = ''Cannot reach any AI providers'',
              details = Some ''All connection attempts failed'',
              can_auto_fix = False,
              fix_suggestions = Network_get_suggestions\<rparr>, self)
      else if Network_unreachable self \<noteq> [] then
        Inr (\<lparr>name = NetworkCheck_name, status = WARN,
              message = ''Some providers unreachable: '' @ join '', '' (Network_unreachable self),
              details = Some (''Reachable: '' @ join '', '' (Network_reachable self)),
              can_auto_fix = False,
              fix_suggestions = Network_get_suggestions\<rparr>, self)
      else
        Inr (\<lparr>name = NetworkCheck_name, status = PASS,
              message = ''Network connectivity OK'',
              details = Some (''Reachable: '' @ join '', '' (Network_reachable self)),
              can_auto_fix = False,
              fix_suggestions = []\<rparr>, self))"

definition NetworkCheck_fix ::
  "'w host \<Rightarrow> Network_fields \<Rightarrow> 'w \<Rightarrow> (exn + bool) \<times> out list \<times> 'w" where
  "NetworkCheck_fix h self w =
     (Inr False, [Print_suggestion ''Network Troubleshooting'' Network_get_suggestions], w)"

definition NetworkCheck :: "'w host \<Rightarrow> 'w check_class" where
  "NetworkCheck h =
     \<lparr>cls_name = NetworkCheck_name, cls_description = NetworkCheck_description,
      cls_new = object (NetworkCheck_run h) (NetworkCheck_fix h) NetworkCheck_init\<rparr>"

subsection \<open>The registry (checks/__init__.py)\<close>

definition ALL_CHECKS :: "'w host \<Rightarrow> 'w check_class list" where
  "ALL_CHECKS h =
     [NodeJSCheck h, OpenClawCheck h, DockerCheck h, SystemCheck h, ConfigCheck h,
      APIKeysCheck h, NetworkCheck h]"

section \<open>The orchestrator (main.py)\<close>

text \<open>
  A command either returns, or ends with \<^verbatim>\<open>raise typer.Exit(code)\<close>, or lets an
  exception of a probe escape.
\<close>

datatype abort = Exit nat | Raised exn


text \<open>
  An execution is followed through the machine, the number of probe instances created so
  far (the next instance gets this number), and the trace of what has happened: an
  instance was created from a class, \<open>run\<close> or \<open>fix'\<close> was called on an instance, or
  something was printed.
\<close>

datatype event =
    Instantiate nat string
  | RunCall nat
  | FixCall nat
  | Output out

record 'w exec =
  world :: 'w
  next_id :: nat
  trace :: "event list"

definition init_exec :: "'w \<Rightarrow> 'w exec" where
  "init_exec w = \<lparr>world = w, next_id = 0, trace = []\<rparr>"

definition emit :: "out list \<Rightarrow> 'w exec \<Rightarrow> 'w exec" where
  "emit outs ex = ex\<lparr>trace := trace ex @ map Output outs\<rparr>"

text \<open>\<^verbatim>\<open>check = check_class()\<close>\<close>

definition instantiate :: "'w check_class \<Rightarrow> 'w exec \<Rightarrow> (nat \<times> 'w BaseCheck) \<times> 'w exec" where
  "instantiate check_class ex =
     ((next_id ex, cls_new check_class),
      ex\<lparr>next_id := Suc (next_id ex),
         trace := trace ex @ [Instantiate (next_id ex) (cls_name check_class)]\<rparr>)"

text \<open>\<^verbatim>\<open>check.run()\<close>: the result, and the instance as the call has left it.\<close>

definition call_run ::
  "nat \<times> 'w BaseCheck \<Rightarrow> 'w exec \<Rightarrow> (exn + CheckResult \<times> (nat \<times> 'w BaseCheck)) \<times> 'w exec" where
  "call_run check ex =
     (map_sum id (map_prod id (Pair (fst check))) (run (snd check) (world ex)),
      ex\<lparr>trace := trace ex @ [RunCall (fst check)]\<rparr>)"

text \<open>\<^verbatim>\<open>check.fix()\<close>\<close>

definition call_fix :: "nat \<times> 'w BaseCheck \<Rightarrow> 'w exec \<Rightarrow> (exn + bool) \<times> 'w exec" where
  "call_fix check ex =
     (case fix' (snd check) (world ex) of
        (success, outs, w) \<Rightarrow>
          (success, ex\<lparr>world := w, trace := trace ex @ FixCall (fst check) # map Output outs\<rparr>))"

subsection \<open>run_all_checks\<close>

text \<open>
  The registry \<^verbatim>\<open>ALL_CHECKS\<close> is the argument \<open>all_checks\<close> of every command. The first
  loop creates and runs every probe. No \<^verbatim>\<open>try\<close> stands around \<^verbatim>\<open>check.run()\<close>: an
  exception leaves the loop and the function.
\<close>

fun run_loop ::
  "'w check_class list \<Rightarrow> CheckResult list \<Rightarrow> 'w exec \<Rightarrow> (exn + CheckResult list) \<times> 'w exec" where
  "run_loop [] results ex = (Inr results, ex)"
| "run_loop (check_class # rest) results ex =
     (case instantiate check_class ex of
        (check, ex1) \<Rightarrow>
          (case call_run check
                  (emit [Progress_update (''Checking '' @ cls_name check_class @ ''...'')] ex1) of
             (Inl e, ex2) \<Rightarrow> (Inl e, ex2)
           | (Inr (result, check'), ex2) \<Rightarrow>
               run_loop rest (results @ [result]) (emit [Progress_advance] ex2)))"

text \<open>The second loop prints every result and counts it.\<close>

fun display_loop ::
  "bool \<Rightarrow> CheckResult list \<Rightarrow> nat \<times> nat \<times> nat \<Rightarrow> 'w exec \<Rightarrow> (nat \<times> nat \<times> nat) \<times> 'w exec" where
  "display_loop verbose [] counts ex = (counts, ex)"
| "display_loop verbose (result # rest) (n_passed, warnings, failed) ex =
     display_loop verbose rest
       (if status result = PASS then (n_passed + 1, warnings, failed)
        else if status result = WARN then (n_passed, warnings + 1, failed)
        else (n_passed, warnings, failed + 1))
       (emit [Print_check_result (name result) (passed result) (message result)
                (is_warning result) (if verbose then details result else None)] ex)"

text \<open>
  The fix pass, over the results that failed or warned. For a result that can be fixed
  automatically, the class of that name is looked up, a new instance is created and run,
  and \<open>fix'\<close> is called on it.
\<close>

fun fix_loop ::
  "'w check_class list \<Rightarrow> CheckResult list \<Rightarrow> 'w exec \<Rightarrow> (exn + unit) \<times> 'w exec" where
  "fix_loop all_checks [] ex = (Inr (), ex)"
| "fix_loop all_checks (result # rest) ex =
     (if can_auto_fix result then
        (case find (\<lambda>c. cls_name c = name result) all_checks of
           None \<Rightarrow> fix_loop all_checks rest ex
         | Some check_class \<Rightarrow>
             (case instantiate check_class ex of
                (check, ex1) \<Rightarrow>
                  (case call_run check ex1 of
                     (Inl e, ex2) \<Rightarrow> (Inl e, ex2)
                   | (Inr (rerun, check'), ex2) \<Rightarrow>
                       (case call_fix check'
                               (emit [Print_fix_action (''Attempting to fix: '' @ name result)] ex2) of
                          (Inl e, ex3) \<Rightarrow> (Inl e, ex3)
                        | (Inr success, ex3) \<Rightarrow>
                            fix_loop all_checks rest
                              (emit ((if success then [Print_success (name result @ '' fixed!'')]
                                      else []) @ [Console_print []]) ex3)))))
      else if fix_suggestions result \<noteq> [] then
        fix_loop all_checks rest
          (emit (Console_print (''[bold]'' @ name result @ ''[/bold] - Manual fix required:'')
                   # map Print_bullet (fix_suggestions result) @ [Console_print []]) ex)
      else fix_loop all_checks rest ex)"

definition run_all_checks ::
  "'w check_class list \<Rightarrow> bool \<Rightarrow> bool \<Rightarrow> 'w exec \<Rightarrow>
   (exn + CheckResult list \<times> nat \<times> nat \<times> nat) \<times> 'w exec" where
  "run_all_checks all_checks fix verbose ex =
     (case run_loop all_checks []
             (emit [Progress_add_task ''Running health checks...'' (length all_checks)] ex) of
        (Inl e, ex1) \<Rightarrow> (Inl e, ex1)
      | (Inr results, ex1) \<Rightarrow>
          (case display_loop verbose results (0, 0, 0) ex1 of
             (counts, ex2) \<Rightarrow>
               (let fixable_results = filter (\<lambda>r. \<not> passed r \<or> is_warning r) results in
                if fix \<and> fixable_results \<noteq> [] then
                  (case fix_loop all_checks fixable_results
                          (emit [Console_print [],
                                 Console_rule ''[bold magenta]Auto-Fix[/bold magenta]'',
                                 Console_print []] ex2) of
                     (Inl e, ex3) \<Rightarrow> (Inl e, ex3)
                   | (Inr u, ex3) \<Rightarrow> (Inr (results, counts), ex3))
                else (Inr (results, counts), ex2))))"

subsection \<open>doctor\<close>

text \<open>The loop of the JSON mode: every probe is created and run, nothing is printed.\<close>

fun json_loop ::
  "'w check_class list \<Rightarrow> CheckResult list \<Rightarrow> 'w exec \<Rightarrow> (exn + CheckResult list) \<times> 'w exec" where
  "json_loop [] results ex = (Inr results, ex)"
| "json_loop (check_class # rest) results ex =
     (case instantiate check_class ex of
        (check, ex1) \<Rightarrow>
          (case call_run check ex1 of
             (Inl e, ex2) \<Rightarrow> (Inl e, ex2)
           | (Inr (result, check'), ex2) \<Rightarrow> json_loop rest (results @ [result]) ex2))"

text \<open>\<^verbatim>\<open>sum(1 for r in results if r.status == s)\<close>\<close>

definition count_status :: "CheckStatus \<Rightarrow> CheckResult list \<Rightarrow> nat" where
  "count_status s results = length (filter (\<lambda>r. status r = s) results)"

definition json_output_dict :: "string \<Rightarrow> CheckResult list \<Rightarrow> pyval" where
  "json_output_dict version results = PyDict
     [(PyStr ''version'', PyStr version),
      (PyStr ''checks'', PyList (map to_dict results)),
      (PyStr ''summary'', PyDict
         [(PyStr ''passed'', PyInt (int (count_status PASS results))),
          (PyStr ''warnings'', PyInt (int (count_status WARN results))),
          (PyStr ''failed'', PyInt (int (count_status FAIL results)))])]"

text \<open>
  \<open>version\<close> is the package's \<^verbatim>\<open>__version__\<close>. The exit test of the JSON mode reads
  \<^verbatim>\<open>output["summary"]["failed"]\<close>, the count of the results whose status is \<open>FAIL\<close>.
\<close>

definition doctor ::
  "'w check_class list \<Rightarrow> string \<Rightarrow> bool \<Rightarrow> bool \<Rightarrow> bool \<Rightarrow> 'w exec \<Rightarrow> (abort + unit) \<times> 'w exec" where
  "doctor all_checks version fix verbose json_output ex =
     (if json_output then
        (case json_loop all_checks [] ex of
           (Inl e, ex1) \<Rightarrow> (Inl (Raised e), ex1)
         | (Inr results, ex1) \<Rightarrow>
             (if count_status FAIL results > 0 then Inl (Exit 1) else Inr (),
              emit [Print_json (json_output_dict version results)] ex1))
      else
        (case run_all_checks all_checks fix verbose (emit [Print_header] ex) of
           (Inl e, ex1) \<Rightarrow> (Inl (Raised e), ex1)
         | (Inr (results, n_passed, warnings, failed), ex1) \<Rightarrow>
             (if failed > 0 then Inl (Exit 1) else Inr (),
              emit [Print_summary n_passed warnings failed] ex1)))"


subsection \<open>check\<close>

definition name_map :: "(string \<times> string) list" where
  "name_map =
     [(''nodejs'', ''Node.js''),
      (''node'', ''Node.js''),
      (''openclaw'', ''OpenClaw''),
      (''claw'', ''OpenClaw''),
      (''docker'', ''Docker''),
      (''system'', ''System''),
      (''config'', ''Config''),
      (''configuration'', ''Config''),
      (''api_keys'', ''API Keys''),
      (''apikeys'', ''API Keys''),
      (''keys'', ''API Keys''),
      (''network'', ''Network''),
      (''net'', ''Network'')]"

definition name_lower_of :: "string \<Rightarrow> string" where
  "name_lower_of name_arg = replace '' '' ''_'' (replace ''-'' ''_'' (lower name_arg))"

text \<open>
  The lookup of the class: the first class of the registry whose name is the target of the
  alias table, or whose lowered name is the lowered argument.
\<close>

definition find_check :: "'w check_class list \<Rightarrow> string \<Rightarrow> 'w check_class option" where
  "find_check all_checks name_arg =
     (let name_lower = name_lower_of name_arg;
          target_name = map_of name_map name_lower
      in find (\<lambda>cls. Some (cls_name cls) = target_name \<or> lower (cls_name cls) = name_lower)
           all_checks)"

definition check ::
  "'w check_class list \<Rightarrow> string \<Rightarrow> bool \<Rightarrow> bool \<Rightarrow> 'w exec \<Rightarrow> (abort + unit) \<times> 'w exec" where
  "check all_checks name_arg fix verbose ex =
     (case find_check all_checks name_arg of
        None \<Rightarrow>
          (Inl (Exit 1),
           emit (Print_error (''Unknown check: '' @ name_arg)
                 # Console_print (CHR 0x0A # ''Available checks:'')
                 # map (\<lambda>cls. Print_available (replace '' '' ''_'' (lower (cls_name cls)))
                                 (cls_description cls)) all_checks) ex)
      | Some check_class \<Rightarrow>
          (case instantiate check_class (emit [Print_header] ex) of
             (chk, ex1) \<Rightarrow>
               (case call_run chk ex1 of
                  (Inl e, ex2) \<Rightarrow> (Inl (Raised e), ex2)
                | (Inr (result, chk'), ex2) \<Rightarrow>
                    (let ex3 = emit [Print_check_result (name result) (passed result)
                                       (message result) (is_warning result)
                                       (if verbose then details result else None)] ex2;
                         finish = (\<lambda>ex'. (if status result = FAIL then Inl (Exit 1) else Inr (), ex'))
                     in if fix \<and> (\<not> passed result \<or> is_warning result) then
                          (if can_auto_fix result then
                             (case call_fix chk'
                                     (emit [Console_print [],
                                            Print_fix_action (''Attempting to fix: '' @ name result)]
                                        ex3) of
                                (Inl e, ex4) \<Rightarrow> (Inl (Raised e), ex4)
                              | (Inr success, ex4) \<Rightarrow>
                                  finish (emit (if success
                                                then [Print_success (name result @ '' fixed!'')]
                                                else []) ex4))
                           else if fix_suggestions result \<noteq> [] then
                             finish (emit (Console_print []
                                           # Console_print ''[bold]Manual fix required:[/bold]''
                                           # map Print_bullet (fix_suggestions result)) ex3)
                           else finish (emit [Console_print []] ex3))
                        else finish ex3))))"

subsection \<open>list_checks\<close>

definition list_checks :: "'w check_class list \<Rightarrow> 'w exec \<Rightarrow> (abort + unit) \<times> 'w exec" where
  "list_checks all_checks ex =
     (Inr (),
      emit (Console_print (CHR 0x0A # ''[bold]Available Health Checks:[/bold]'' @ [CHR 0x0A])
            # concat (map (\<lambda>check_class.
                [Console_print (''  [cyan]'' @ cls_name check_class @ ''[/cyan]''),
                 Console_print (''    '' @ cls_description check_class),
                 Console_print []]) all_checks)) ex)"

section \<open>Reading a trace\<close>

text \<open>The calls of a trace: what is left without the output.\<close>

fun is_call :: "event \<Rightarrow> bool" where
  "is_call (Output out) = False"
| "is_call e = True"

definition calls :: "event list \<Rightarrow> event list" where
  "calls tr = filter is_call tr"


text \<open>
  The calls of a loop that creates and runs one instance of every class of \<open>cs\<close>, the first
  instance being number \<open>n\<close>.
\<close>

definition run_blocks :: "nat \<Rightarrow> 'w check_class list \<Rightarrow> event list" where
  "run_blocks n cs =
     concat (map (\<lambda>(i, c). [Instantiate i (cls_name c), RunCall i]) (enumerate n cs))"

text \<open>
  \<open>run\<close> on a new instance of the class returns on the machine \<open>w\<close> (it does not raise),
  and the result it returns.
\<close>

definition returns :: "'w \<Rightarrow> 'w check_class \<Rightarrow> bool" where
  "returns w c = (\<not> isl (run (cls_new c) w))"

definition result_of :: "'w \<Rightarrow> 'w check_class \<Rightarrow> CheckResult" where
  "result_of w c = fst (projr (run (cls_new c) w))"

text \<open>
  The order of the calls on probe instances. A trace is read from the left, keeping the
  instances created so far and what the last call was: nothing yet or a \<open>fix\<close> (\<open>Idle\<close>),
  the creation of instance \<open>i\<close> (\<open>Created i\<close>), or \<open>run\<close> on instance \<open>i\<close> (\<open>Ran i\<close>).
  A step is refused when it creates an instance that exists already, calls \<open>run\<close> on
  anything but the instance just created, or calls \<open>fix\<close> on anything but the instance on
  which \<open>run\<close> has just been called. Output between two calls changes nothing.
\<close>

datatype phase = Idle | Created nat | Ran nat

fun seq_step :: "phase \<times> nat list \<Rightarrow> event \<Rightarrow> (phase \<times> nat list) option" where
  "seq_step (ph, used) (Output out) = Some (ph, used)"
| "seq_step (ph, used) (Instantiate i k) =
     (if i \<in> set used then None else Some (Created i, i # used))"
| "seq_step (ph, used) (RunCall i) = (if ph = Created i then Some (Ran i, used) else None)"
| "seq_step (ph, used) (FixCall i) = (if ph = Ran i then Some (Idle, used) else None)"

fun seq_run :: "(phase \<times> nat list) option \<Rightarrow> event list \<Rightarrow> (phase \<times> nat list) option" where
  "seq_run st [] = st"
| "seq_run None (e # es) = None"
| "seq_run (Some st) (e # es) = seq_run (seq_step st e) es"

definition fix_follows_run :: "event list \<Rightarrow> bool" where
  "fix_follows_run tr = (seq_run (Some (Idle, [])) tr \<noteq> None)"

text \<open>The numbers of the instances that a trace creates.\<close>

fun created :: "event list \<Rightarrow> nat list" where
  "created [] = []"
| "created (Instantiate i k # es) = i # created es"
| "created (e # es) = created es"

text \<open>
  An execution whose trace so far is accepted, read from the start, and has ended with the
  last call \<open>ph\<close>; every instance created has a number below the next one.
\<close>

definition ordered :: "'w exec \<Rightarrow> phase \<Rightarrow> bool" where
  "ordered ex ph =
     (\<exists>used. seq_run (Some (Idle, [])) (trace ex) = Some (ph, used) \<and>
             (\<forall>i\<in>set used. i < next_id ex))"

subsection \<open>Results that name a next step\<close>

text \<open>
  A result names a next step when it can be fixed automatically or carries at least one
  suggestion; a result that passed or was skipped needs none.
\<close>

definition has_next_step :: "CheckResult \<Rightarrow> bool" where
  "has_next_step r = (status r = PASS \<or> status r = SKIP \<or> can_auto_fix r \<or> fix_suggestions r \<noteq> [])"

section \<open>Example inputs\<close>

text \<open>
  \<^verbatim>\<open>f"{x:.nf}"\<close> for a non-negative \<open>x\<close>: \<open>n\<close> decimals, rounded to the nearest, a tie to
  the even digit.
\<close>

definition round_half_even :: "real \<Rightarrow> int" where
  "round_half_even x =
     (let f = \<lfloor>x\<rfloor>; d = x - of_int f
      in if d > 1 / 2 \<or> (d = 1 / 2 \<and> odd f) then f + 1 else f)"

definition format_fixed :: "nat \<Rightarrow> real \<Rightarrow> string" where
  "format_fixed n x =
     (let scaled = nat (round_half_even (x * 10 ^ n));
          fraction = str_nat (scaled mod 10 ^ n)
      in str_nat (scaled div 10 ^ n) @
         (if n = 0 then []
          else ''.'' @ replicate (n - length fraction) CHR ''0'' @ fraction))"

text \<open>
  A Linux machine with one CPU core, 8 GiB of memory and 100 GiB of free disk, without
  Node.js, OpenClaw, Docker, API keys or network. Its state is what the file
  \<^verbatim>\<open>~/.openclaw/config.yaml\<close> holds, \<open>None\<close> when there is no such file; no other
  program can be started on it.
\<close>

definition example_host :: "pyval option host" where
  "example_host =
     \<lparr>sys_platform = ''linux'',
      NodeJS_get_node_info = (\<lambda>w. Inr (None, None)),
      OpenClaw_get_openclaw_info = (\<lambda>w. Inr (None, None)),
      OpenClaw_get_home_directory = (\<lambda>w. Inr None),
      Docker_check_docker = (\<lambda>w. Inr (None, False)),
      Docker_check_compose = (\<lambda>w. Inr None),
      psutil_virtual_memory_total = (\<lambda>w. Inr 8589934592),
      shutil_disk_usage_free = (\<lambda>path w. Inr 107374182400),
      psutil_cpu_count = (\<lambda>logical w. Inr (Some 1)),
      format_float = format_fixed,
      Config_find_config =
        (\<lambda>w. Inr (case w of None \<Rightarrow> None | Some c \<Rightarrow> Some ''/home/user/.openclaw/config.yaml'')),
      Config_parse_config =
        (\<lambda>path w. case w of None \<Rightarrow> Inl (FileNotFoundError path) | Some c \<Rightarrow> Inr c),
      APIKeys_check_env_keys = (\<lambda>w. Inr ([], [])),
      APIKeys_check_env_file = (\<lambda>w. Inr ([], None)),
      APIKeys_check_config_keys = (\<lambda>w. Inr []),
      httpx_head = (\<lambda>url w. ConnectError),
      subprocess_run = (\<lambda>args timeout w. (Inl (FileNotFoundError (hd args)), w)),
      Path_home = (\<lambda>w. Inr ''/home/user''),
      path_join = (\<lambda>a b. a @ ''/'' @ b),
      write_config = (\<lambda>dir path config w. (Inr (), Some config))\<rparr>"



section \<open>Properties\<close>

declare replace.simps [simp del] str_nat.simps [simp del]

subsection \<open>Objects and executions\<close>

lemma run_object [simp]:
  "run (object run_body fix_body self) w = map_sum id (map_prod id (object run_body fix_body)) (run_body self w)"
  by simp

lemma emit_simps [simp]:
  "trace (emit outs ex) = trace ex @ map Output outs"
  "world (emit outs ex) = world ex"
  "next_id (emit outs ex) = next_id ex"
  by (simp_all add: emit_def)

lemma instantiate_simps [simp]:
  "fst (instantiate c ex) = (next_id ex, cls_new c)"
  "trace (snd (instantiate c ex)) = trace ex @ [Instantiate (next_id ex) (cls_name c)]"
  "world (snd (instantiate c ex)) = world ex"
  "next_id (snd (instantiate c ex)) = Suc (next_id ex)"
  by (simp_all add: instantiate_def)

lemma call_run_simps [simp]:
  "fst (call_run chk ex) = map_sum id (map_prod id (Pair (fst chk))) (run (snd chk) (world ex))"
  "trace (snd (call_run chk ex)) = trace ex @ [RunCall (fst chk)]"
  "world (snd (call_run chk ex)) = world ex"
  "next_id (snd (call_run chk ex)) = next_id ex"
  by (simp_all add: call_run_def)

lemma call_fix_simps [simp]:
  "fst (call_fix chk ex) = fst (fix' (snd chk) (world ex))"
  "trace (snd (call_fix chk ex)) = trace ex @ FixCall (fst chk) # map Output (fst (snd (fix' (snd chk) (world ex))))"
  "world (snd (call_fix chk ex)) = snd (snd (fix' (snd chk) (world ex)))"
  "next_id (snd (call_fix chk ex)) = next_id ex"
  by (simp_all add: call_fix_def split: prod.splits)

lemma call_run_Inr_id:
  "call_run chk ex = (Inr (r, chk'), ex') \<Longrightarrow> fst chk' = fst chk"
  by (auto simp: call_run_def map_sum_def split: sum.splits)

subsection \<open>The order of the calls\<close>

lemma seq_run_None [simp]: "seq_run None es = None"
  by (cases es) simp_all

lemma seq_run_append: "seq_run st (es @ fs) = seq_run (seq_run st es) fs"
proof (induction es arbitrary: st)
  case Nil
  show ?case by simp
next
  case (Cons e es)
  show ?case
  proof (cases st)
    case None
    then show ?thesis by simp
  next
    case (Some a)
    then show ?thesis by (simp add: Cons.IH)
  qed
qed

lemma seq_step_Output [simp]: "seq_step st (Output out) = Some st"
  by (cases st) simp

lemma seq_run_outputs [simp]: "seq_run (Some st) (map Output outs) = Some st"
  by (induction outs) simp_all

lemma ordered_emit: "ordered ex ph \<Longrightarrow> ordered (emit outs ex) ph"
  by (auto simp: ordered_def seq_run_append)

lemma ordered_instantiate: "ordered ex ph \<Longrightarrow> ordered (snd (instantiate c ex)) (Created (next_id ex))"
  by (fastforce simp: ordered_def seq_run_append)

lemma ordered_call_run: "ordered ex (Created (fst chk)) \<Longrightarrow> ordered (snd (call_run chk ex)) (Ran (fst chk))"
  by (auto simp: ordered_def seq_run_append)

lemma ordered_call_fix: "ordered ex (Ran (fst chk)) \<Longrightarrow> ordered (snd (call_fix chk ex)) Idle"
  by (auto simp: ordered_def seq_run_append)

lemma ordered_init: "ordered (init_exec w) Idle"
  by (simp add: ordered_def init_exec_def)

lemma ordered_fix_follows_run: "ordered ex ph \<Longrightarrow> fix_follows_run (trace ex)"
  by (auto simp: ordered_def fix_follows_run_def)

lemma run_loop_ordered: "ordered ex ph \<Longrightarrow> \<exists>ph'. ordered (snd (run_loop cs rs ex)) ph'"
proof (induction cs arbitrary: rs ex ph)
  case Nil
  then show ?case by auto
next
  case (Cons c cs)
  obtain chk ex1 where i: "instantiate c ex = (chk, ex1)" by (cases "instantiate c ex")
  from i have chk: "fst chk = next_id ex" and ex1: "ex1 = snd (instantiate c ex)"
    by (auto simp: instantiate_def)
  let ?ex1' = "emit [Progress_update (''Checking '' @ cls_name c @ ''...'')] ex1"
  have o1: "ordered ?ex1' (Created (fst chk))"
    using Cons.prems chk ex1 by (auto intro!: ordered_emit ordered_instantiate)
  obtain res ex2 where r: "call_run chk ?ex1' = (res, ex2)" by (cases "call_run chk ?ex1'")
  then have ex2: "ex2 = snd (call_run chk ?ex1')" by simp
  have o2: "ordered ex2 (Ran (fst chk))"
    unfolding ex2 by (rule ordered_call_run [OF o1])
  show ?case
  proof (cases res)
    case (Inl e)
    then show ?thesis using i r o2 by auto
  next
    case (Inr p)
    obtain result chk' where p: "p = (result, chk')" by (cases p)
    have "\<exists>ph'. ordered (snd (run_loop cs (rs @ [result]) (emit [Progress_advance] ex2))) ph'"
      by (rule Cons.IH [OF ordered_emit [OF o2]])
    then show ?thesis using i r Inr p by simp
  qed
qed


lemma ordered_new_run:
  assumes "ordered ex ph" and "instantiate c ex = (chk, ex1)"
    and "call_run chk (emit outs ex1) = (res, ex2)"
  shows "ordered ex2 (Ran (fst chk))"
proof -
  from assms(2) have chk: "fst chk = next_id ex" and ex1: "ex1 = snd (instantiate c ex)"
    by (auto simp: instantiate_def)
  have "ordered (emit outs ex1) (Created (fst chk))"
    using assms(1) chk ex1 by (auto intro!: ordered_emit ordered_instantiate)
  then have "ordered (snd (call_run chk (emit outs ex1))) (Ran (fst chk))"
    by (rule ordered_call_run)
  then show ?thesis using assms(3) by simp
qed

lemma ordered_then_fix:
  assumes "ordered ex2 (Ran (fst chk))" and "call_run chk ex1 = (Inr (r, chk'), ex2)"
    and "call_fix chk' (emit outs ex2) = (s, ex3)"
  shows "ordered ex3 Idle"
proof -
  have "fst chk' = fst chk" using assms(2) by (rule call_run_Inr_id)
  then have "ordered (emit outs ex2) (Ran (fst chk'))"
    using assms(1) by (auto intro: ordered_emit)
  then have "ordered (snd (call_fix chk' (emit outs ex2))) Idle"
    by (rule ordered_call_fix)
  then show ?thesis using assms(3) by simp
qed

lemma json_loop_ordered: "ordered ex ph \<Longrightarrow> \<exists>ph'. ordered (snd (json_loop cs rs ex)) ph'"
proof (induction cs arbitrary: rs ex ph)
  case Nil
  then show ?case by auto
next
  case (Cons c cs)
  obtain chk ex1 where i: "instantiate c ex = (chk, ex1)" by (cases "instantiate c ex")
  obtain res ex2 where r: "call_run chk ex1 = (res, ex2)" by (cases "call_run chk ex1")
  have "call_run chk (emit [] ex1) = (res, ex2)" using r by (simp add: emit_def)
  with Cons.prems i have o2: "ordered ex2 (Ran (fst chk))" by (rule ordered_new_run)
  show ?case
  proof (cases res)
    case (Inl e)
    then show ?thesis using i r o2 by auto
  next
    case (Inr p)
    obtain result chk' where p: "p = (result, chk')" by (cases p)
    have "\<exists>ph'. ordered (snd (json_loop cs (rs @ [result]) ex2)) ph'"
      by (rule Cons.IH [OF o2])
    then show ?thesis using i r Inr p by simp
  qed
qed

lemma display_loop_emits: "\<exists>outs. snd (display_loop verbose rs counts ex) = emit outs ex"
proof (induction rs arbitrary: counts ex)
  case Nil
  have "snd (display_loop verbose [] counts ex) = emit [] ex" by (simp add: emit_def)
  then show ?case by blast
next
  case (Cons r rs)
  obtain p w f where c: "counts = (p, w, f)" by (cases counts)
  let ?o = "Print_check_result (name r) (passed r) (message r) (is_warning r) (if verbose then details r else None)"
  let ?c = "(if status r = PASS then (p + 1, w, f) else if status r = WARN then (p, w + 1, f) else (p, w, f + 1))"
  from Cons.IH [of ?c "emit [?o] ex"] obtain outs
    where "snd (display_loop verbose rs ?c (emit [?o] ex)) = emit outs (emit [?o] ex)" by blast
  then have "snd (display_loop verbose (r # rs) counts ex) = emit (?o # outs) ex"
    using c by (simp add: emit_def)
  then show ?case by blast
qed

lemma display_loop_ordered: "ordered ex ph \<Longrightarrow> ordered (snd (display_loop verbose rs counts ex)) ph"
  using display_loop_emits [of verbose rs counts ex] by (auto intro: ordered_emit)

lemma fix_loop_ordered: "ordered ex ph \<Longrightarrow> \<exists>ph'. ordered (snd (fix_loop reg rs ex)) ph'"
proof (induction rs arbitrary: ex ph)
  case Nil
  then show ?case by auto
next
  case (Cons r rs)
  show ?case
  proof (cases "can_auto_fix r")
    case False
    show ?thesis
    proof (cases "fix_suggestions r = []")
      case True
      with False Cons show ?thesis by simp
    next
      case nonempty: False
      let ?ex = "emit (Console_print (''[bold]'' @ name r @ ''[/bold] - Manual fix required:'')
                   # map Print_bullet (fix_suggestions r) @ [Console_print []]) ex"
      have "ordered ?ex ph" using Cons.prems by (rule ordered_emit)
      from Cons.IH [OF this] show ?thesis using False nonempty by simp
    qed
  next
    case True
    show ?thesis
    proof (cases "find (\<lambda>c. cls_name c = name r) reg")
      case None
      with True Cons show ?thesis by simp
    next
      case (Some c)
      obtain chk ex1 where i: "instantiate c ex = (chk, ex1)" by (cases "instantiate c ex")
      obtain res ex2 where rr: "call_run chk ex1 = (res, ex2)" by (cases "call_run chk ex1")
      have "call_run chk (emit [] ex1) = (res, ex2)" using rr by (simp add: emit_def)
      with Cons.prems i have o2: "ordered ex2 (Ran (fst chk))" by (rule ordered_new_run)
      show ?thesis
      proof (cases res)
        case (Inl e)
        then show ?thesis using True Some i rr o2 by auto
      next
        case (Inr p)
        obtain rerun chk' where p: "p = (rerun, chk')" by (cases p)
        let ?outs = "[Print_fix_action (''Attempting to fix: '' @ name r)]"
        obtain s ex3 where f: "call_fix chk' (emit ?outs ex2) = (s, ex3)"
          by (cases "call_fix chk' (emit ?outs ex2)")
        have o3: "ordered ex3 Idle"
          using o2 rr f unfolding Inr p by (rule ordered_then_fix)
        show ?thesis
        proof (cases s)
          case (Inl e)
          then show ?thesis using True Some i rr Inr p f o3 by auto
        next
          case (Inr success)
          let ?ex4 = "emit ((if success then [Print_success (name r @ '' fixed!'')] else []) @ [Console_print []]) ex3"
          have "ordered ?ex4 Idle" using o3 by (rule ordered_emit)
          from Cons.IH [OF this] show ?thesis
            using True Some i rr \<open>res = Inr p\<close> p f Inr by simp
        qed
      qed
    qed
  qed
qed

lemma run_all_checks_ordered:
  assumes "ordered ex ph"
  shows "\<exists>ph'. ordered (snd (run_all_checks reg fix verbose ex)) ph'"
proof -
  let ?ex0 = "emit [Progress_add_task ''Running health checks...'' (length reg)] ex"
  have o0: "ordered ?ex0 ph" using assms by (rule ordered_emit)
  obtain res ex1 where l: "run_loop reg [] ?ex0 = (res, ex1)" by (cases "run_loop reg [] ?ex0")
  from run_loop_ordered [OF o0, of reg "[]"] l obtain ph1 where o1: "ordered ex1 ph1" by auto
  show ?thesis
  proof (cases res)
    case (Inl e)
    then show ?thesis using l o1 by (auto simp: run_all_checks_def)
  next
    case (Inr results)
    obtain counts ex2 where d: "display_loop verbose results (0, 0, 0) ex1 = (counts, ex2)"
      by (cases "display_loop verbose results (0, 0, 0) ex1")
    from display_loop_ordered [OF o1, of verbose results "(0, 0, 0)"] d
    have o2: "ordered ex2 ph1" by simp
    let ?fixable = "filter (\<lambda>r. \<not> passed r \<or> is_warning r) results"
    show ?thesis
    proof (cases "fix \<and> ?fixable \<noteq> []")
      case False
      then show ?thesis using l Inr d o2 by (auto simp: run_all_checks_def Let_def)
    next
      case True
      let ?ex2' = "emit [Console_print [], Console_rule ''[bold magenta]Auto-Fix[/bold magenta]'', Console_print []] ex2"
      have "ordered ?ex2' ph1" using o2 by (rule ordered_emit)
      from fix_loop_ordered [OF this, of reg ?fixable] obtain ph3
        where o3: "ordered (snd (fix_loop reg ?fixable ?ex2')) ph3" by blast
      obtain fres ex3 where f: "fix_loop reg ?fixable ?ex2' = (fres, ex3)"
        by (cases "fix_loop reg ?fixable ?ex2'")
      with o3 have "ordered ex3 ph3" by simp
      then show ?thesis using True l Inr d f
        by (cases fres) (auto simp: run_all_checks_def Let_def)
    qed
  qed
qed


lemma doctor_ordered:
  assumes "ordered ex ph"
  shows "\<exists>ph'. ordered (snd (doctor reg version fix verbose json_output ex)) ph'"
proof (cases json_output)
  case True
  obtain res ex1 where l: "json_loop reg [] ex = (res, ex1)" by (cases "json_loop reg [] ex")
  from json_loop_ordered [OF assms, of reg "[]"] l obtain ph1 where o1: "ordered ex1 ph1" by auto
  show ?thesis
  proof (cases res)
    case (Inl e)
    then show ?thesis using True l o1 by (auto simp: doctor_def)
  next
    case (Inr results)
    have "ordered (emit [Print_json (json_output_dict version results)] ex1) ph1"
      using o1 by (rule ordered_emit)
    then show ?thesis using True l Inr by (auto simp: doctor_def)
  qed
next
  case False
  let ?ex0 = "emit [Print_header] ex"
  have "ordered ?ex0 ph" using assms by (rule ordered_emit)
  from run_all_checks_ordered [OF this, of reg "fix" verbose] obtain ph1
    where o1: "ordered (snd (run_all_checks reg fix verbose ?ex0)) ph1" by blast
  obtain res ex1 where l: "run_all_checks reg fix verbose ?ex0 = (res, ex1)"
    by (cases "run_all_checks reg fix verbose ?ex0")
  with o1 have o1': "ordered ex1 ph1" by simp
  show ?thesis
  proof (cases res)
    case (Inl e)
    then show ?thesis using False l o1' by (auto simp: doctor_def)
  next
    case (Inr p)
    obtain results n_passed warnings failed where p: "p = (results, n_passed, warnings, failed)"
      by (cases p)
    have "ordered (emit [Print_summary n_passed warnings failed] ex1) ph1"
      using o1' by (rule ordered_emit)
    then show ?thesis using False l Inr p by (auto simp: doctor_def)
  qed
qed

lemma check_ordered:
  assumes "ordered ex ph"
  shows "\<exists>ph'. ordered (snd (check reg name_arg fix verbose ex)) ph'"
proof (cases "find_check reg name_arg")
  case None
  let ?outs = "Print_error (''Unknown check: '' @ name_arg)
                 # Console_print (CHR 0x0A # ''Available checks:'')
                 # map (\<lambda>cls. Print_available (replace '' '' ''_'' (lower (cls_name cls)))
                                 (cls_description cls)) reg"
  have "ordered (emit ?outs ex) ph" using assms by (rule ordered_emit)
  then show ?thesis using None by (auto simp: check_def)
next
  case (Some c)
  obtain chk ex1 where i: "instantiate c (emit [Print_header] ex) = (chk, ex1)"
    by (cases "instantiate c (emit [Print_header] ex)")
  obtain res ex2 where rr: "call_run chk ex1 = (res, ex2)" by (cases "call_run chk ex1")
  have r0: "call_run chk (emit [] ex1) = (res, ex2)" using rr by (simp add: emit_def)
  have "ordered (emit [Print_header] ex) ph" using assms by (rule ordered_emit)
  from this i r0 have o2: "ordered ex2 (Ran (fst chk))" by (rule ordered_new_run)
  show ?thesis
  proof (cases res)
    case (Inl e)
    then show ?thesis using Some i rr o2 by (auto simp: check_def)
  next
    case (Inr p)
    obtain result chk' where p: "p = (result, chk')" by (cases p)
    let ?ex3 = "emit [Print_check_result (name result) (passed result) (message result)
                        (is_warning result) (if verbose then details result else None)] ex2"
    have o3: "ordered ?ex3 (Ran (fst chk))" using o2 by (rule ordered_emit)
    have id: "fst chk' = fst chk" using rr unfolding Inr p by (rule call_run_Inr_id)
    note start = Some i rr Inr p
    show ?thesis
    proof (cases "fix \<and> (\<not> passed result \<or> is_warning result)")
      case False
      then have "snd (check reg name_arg fix verbose ex) = ?ex3"
        using start by (auto simp: check_def Let_def)
      then show ?thesis using o3 by auto
    next
      case True
      show ?thesis
      proof (cases "can_auto_fix result")
        case auto_fix: True
        let ?outs = "[Console_print [], Print_fix_action (''Attempting to fix: '' @ name result)]"
        have "ordered (emit ?outs ?ex3) (Ran (fst chk'))"
          using o3 id by (auto intro: ordered_emit)
        then have o4: "ordered (snd (call_fix chk' (emit ?outs ?ex3))) Idle"
          by (rule ordered_call_fix)
        obtain s ex4 where f: "call_fix chk' (emit ?outs ?ex3) = (s, ex4)"
          by (cases "call_fix chk' (emit ?outs ?ex3)")
        with o4 have o4': "ordered ex4 Idle" by simp
        show ?thesis
        proof (cases s)
          case (Inl e)
          then have "snd (check reg name_arg fix verbose ex) = ex4"
            using start True auto_fix f by (auto simp: check_def Let_def)
          then show ?thesis using o4' by auto
        next
          case (Inr success)
          let ?ex5 = "emit (if success then [Print_success (name result @ '' fixed!'')] else []) ex4"
          have "snd (check reg name_arg fix verbose ex) = ?ex5"
            using start True auto_fix f Inr by (auto simp: check_def Let_def)
          moreover have "ordered ?ex5 Idle" using o4' by (rule ordered_emit)
          ultimately show ?thesis by auto
        qed
      next
        case no_auto_fix: False
        let ?ex4 = "emit (if fix_suggestions result \<noteq> []
                          then Console_print [] # Console_print ''[bold]Manual fix required:[/bold]''
                               # map Print_bullet (fix_suggestions result)
                          else [Console_print []]) ?ex3"
        have "snd (check reg name_arg fix verbose ex) = ?ex4"
          using start True no_auto_fix by (auto simp: check_def Let_def)
        moreover have "ordered ?ex4 (Ran (fst chk))" using o3 by (rule ordered_emit)
        ultimately show ?thesis by auto
      qed
    qed
  qed
qed

subsection \<open>The calls of the run loops\<close>

lemma calls_append [simp]: "calls (xs @ ys) = calls xs @ calls ys"
  by (simp add: calls_def)

lemma calls_outputs [simp]: "calls (map Output outs) = []"
  by (induction outs) (simp_all add: calls_def)

lemma calls_simps [simp]:
  "calls [] = []"
  "calls (Output out # es) = calls es"
  "calls (Instantiate i k # es) = Instantiate i k # calls es"
  "calls (RunCall i # es) = RunCall i # calls es"
  "calls (FixCall i # es) = FixCall i # calls es"
  by (simp_all add: calls_def)

lemma run_blocks_simps [simp]:
  "run_blocks n [] = []"
  "run_blocks n (c # cs) = Instantiate n (cls_name c) # RunCall n # run_blocks (Suc n) cs"
  by (simp_all add: run_blocks_def)

lemma run_blocks_append:
  "run_blocks n (cs @ ds) = run_blocks n cs @ run_blocks (n + length cs) ds"
  by (induction cs arbitrary: n) simp_all

lemma returnsD: "returns w c \<Longrightarrow> \<exists>chk. run (cls_new c) w = Inr (result_of w c, chk)"
  by (cases "run (cls_new c) w") (auto simp: returns_def result_of_def)


lemma json_loop_raises:
  "list_all (returns (world ex)) pre \<Longrightarrow> run (cls_new c) (world ex) = Inl e \<Longrightarrow>
   json_loop (pre @ c # post) rs ex =
     (Inl e,
      ex\<lparr>next_id := next_id ex + Suc (length pre),
         trace := trace ex @ run_blocks (next_id ex) (pre @ [c])\<rparr>)"
proof (induction pre arbitrary: rs ex)
  case Nil
  then show ?case by (simp add: instantiate_def call_run_def)
next
  case (Cons d pre)
  from Cons.prems have "returns (world ex) d" and rest: "list_all (returns (world ex)) pre" by simp_all
  then obtain chk where r: "run (cls_new d) (world ex) = Inr (result_of (world ex) d, chk)"
    by (auto dest: returnsD)
  let ?ex2 = "ex\<lparr>next_id := Suc (next_id ex),
                  trace := trace ex @ [Instantiate (next_id ex) (cls_name d), RunCall (next_id ex)]\<rparr>"
  have step: "json_loop ((d # pre) @ c # post) rs ex = json_loop (pre @ c # post) (rs @ [result_of (world ex) d]) ?ex2"
    using r by (simp add: instantiate_def call_run_def)
  have "list_all (returns (world ?ex2)) pre" "run (cls_new c) (world ?ex2) = Inl e"
    using rest Cons.prems(2) by simp_all
  from Cons.IH [OF this] show ?case unfolding step by simp
qed

lemma run_loop_returns:
  "list_all (returns (world ex)) cs \<Longrightarrow>
   \<exists>ex'. run_loop cs rs ex = (Inr (rs @ map (result_of (world ex)) cs), ex') \<and>
     world ex' = world ex \<and> next_id ex' = next_id ex + length cs \<and>
     calls (trace ex') = calls (trace ex) @ run_blocks (next_id ex) cs"
proof (induction cs arbitrary: rs ex)
  case Nil
  show ?case by simp
next
  case (Cons c cs)
  from Cons.prems have "returns (world ex) c" and rest: "list_all (returns (world ex)) cs" by simp_all
  then obtain chk where r: "run (cls_new c) (world ex) = Inr (result_of (world ex) c, chk)"
    by (auto dest: returnsD)
  let ?ex2 = "emit [Progress_advance] (snd (call_run (fst (instantiate c ex))
                 (emit [Progress_update (''Checking '' @ cls_name c @ ''...'')] (snd (instantiate c ex)))))"
  have step: "run_loop (c # cs) rs ex = run_loop cs (rs @ [result_of (world ex) c]) ?ex2"
    using r by (simp add: instantiate_def call_run_def)
  have w: "world ?ex2 = world ex" and n: "next_id ?ex2 = Suc (next_id ex)"
    and t: "calls (trace ?ex2) = calls (trace ex) @ [Instantiate (next_id ex) (cls_name c), RunCall (next_id ex)]"
    by simp_all
  have "list_all (returns (world ?ex2)) cs" using rest w by simp
  from Cons.IH [OF this, of "rs @ [result_of (world ex) c]"] show ?case
    unfolding step w n t by auto
qed

lemma run_loop_raises:
  "list_all (returns (world ex)) pre \<Longrightarrow> run (cls_new c) (world ex) = Inl e \<Longrightarrow>
   \<exists>ex'. run_loop (pre @ c # post) rs ex = (Inl e, ex') \<and>
     world ex' = world ex \<and> next_id ex' = next_id ex + Suc (length pre) \<and>
     calls (trace ex') = calls (trace ex) @ run_blocks (next_id ex) (pre @ [c])"
proof (induction pre arbitrary: rs ex)
  case Nil
  then show ?case by (simp add: instantiate_def call_run_def emit_def)
next
  case (Cons d pre)
  from Cons.prems have "returns (world ex) d" and rest: "list_all (returns (world ex)) pre" by simp_all
  then obtain chk where r: "run (cls_new d) (world ex) = Inr (result_of (world ex) d, chk)"
    by (auto dest: returnsD)
  let ?ex2 = "emit [Progress_advance] (snd (call_run (fst (instantiate d ex))
                 (emit [Progress_update (''Checking '' @ cls_name d @ ''...'')] (snd (instantiate d ex)))))"
  have step: "run_loop ((d # pre) @ c # post) rs ex = run_loop (pre @ c # post) (rs @ [result_of (world ex) d]) ?ex2"
    using r by (simp add: instantiate_def call_run_def)
  have w: "world ?ex2 = world ex" and n: "next_id ?ex2 = Suc (next_id ex)"
    and t: "calls (trace ?ex2) = calls (trace ex) @ [Instantiate (next_id ex) (cls_name d), RunCall (next_id ex)]"
    by simp_all
  have "list_all (returns (world ?ex2)) pre" "run (cls_new c) (world ?ex2) = Inl e"
    using rest Cons.prems(2) w by simp_all
  from Cons.IH [OF this, of "rs @ [result_of (world ex) d]"] show ?case
    unfolding step w n t by auto
qed

lemma display_loop_counts:
  "fst (display_loop verbose rs (p, w, f) ex) =
     (p + count_status PASS rs, w + count_status WARN rs,
      f + count_status FAIL rs + count_status SKIP rs)"
proof (induction rs arbitrary: p w f ex)
  case Nil
  show ?case by (simp add: count_status_def)
next
  case (Cons r rs)
  show ?case by (cases "status r") (simp_all add: Cons.IH count_status_def)
qed

lemma calls_run_blocks [simp]: "calls (run_blocks n cs) = run_blocks n cs"
  by (induction cs arbitrary: n) simp_all

lemma run_all_checks_raises:
  assumes "list_all (returns (world ex)) pre" and "run (cls_new c) (world ex) = Inl e"
  shows "\<exists>ex'. run_all_checks (pre @ c # post) fix verbose ex = (Inl e, ex') \<and>
     world ex' = world ex \<and>
     calls (trace ex') = calls (trace ex) @ run_blocks (next_id ex) (pre @ [c])"
proof -
  let ?ex0 = "emit [Progress_add_task ''Running health checks...'' (length (pre @ c # post))] ex"
  have "list_all (returns (world ?ex0)) pre" "run (cls_new c) (world ?ex0) = Inl e"
    using assms by simp_all
  from run_loop_raises [OF this, of post "[]"] obtain ex'
    where "run_loop (pre @ c # post) [] ?ex0 = (Inl e, ex')" "world ex' = world ex"
      "calls (trace ex') = calls (trace ex) @ run_blocks (next_id ex) (pre @ [c])"
    by auto
  then show ?thesis by (simp add: run_all_checks_def)
qed

lemma doctor_raises:
  assumes "list_all (returns (world ex)) pre" and "run (cls_new c) (world ex) = Inl e"
  shows "\<exists>ex'. doctor (pre @ c # post) version fix verbose json_output ex = (Inl (Raised e), ex') \<and>
     world ex' = world ex \<and>
     calls (trace ex') = calls (trace ex) @ run_blocks (next_id ex) (pre @ [c])"
proof (cases json_output)
  case True
  then show ?thesis using json_loop_raises [OF assms, of post "[]"] by (simp add: doctor_def)
next
  case False
  have "list_all (returns (world (emit [Print_header] ex))) pre"
    "run (cls_new c) (world (emit [Print_header] ex)) = Inl e"
    using assms by simp_all
  from run_all_checks_raises [OF this, of post "fix" verbose] obtain ex'
    where "run_all_checks (pre @ c # post) fix verbose (emit [Print_header] ex) = (Inl e, ex')"
      "world ex' = world ex"
      "calls (trace ex') = calls (trace ex) @ run_blocks (next_id ex) (pre @ [c])"
    by auto
  then show ?thesis using False by (simp add: doctor_def)
qed

subsection \<open>The registered probes\<close>

lemma NodeJSCheck_run_name: "NodeJSCheck_run h self w = Inr (r, self') \<Longrightarrow> name r = NodeJSCheck_name"
  by (auto simp: NodeJSCheck_run_def Let_def split: sum.splits prod.splits if_splits)

lemma OpenClawCheck_run_name: "OpenClawCheck_run h self w = Inr (r, self') \<Longrightarrow> name r = OpenClawCheck_name"
  by (auto simp: OpenClawCheck_run_def Let_def split: sum.splits prod.splits if_splits)

lemma DockerCheck_run_name: "DockerCheck_run h self w = Inr (r, self') \<Longrightarrow> name r = DockerCheck_name"
  by (auto simp: DockerCheck_run_def Let_def split: sum.splits prod.splits if_splits)

lemma SystemCheck_run_name: "SystemCheck_run h self w = Inr (r, self') \<Longrightarrow> name r = SystemCheck_name"
  by (auto simp: SystemCheck_run_def System_build_result_def Let_def split: sum.splits)

lemma ConfigCheck_run_name: "ConfigCheck_run h self w = Inr (r, self') \<Longrightarrow> name r = ConfigCheck_name"
  by (auto simp: ConfigCheck_run_def Let_def split: sum.splits prod.splits if_splits option.splits exn.splits)

lemma APIKeysCheck_run_name: "APIKeysCheck_run h self w = Inr (r, self') \<Longrightarrow> name r = APIKeysCheck_name"
  by (auto simp: APIKeysCheck_run_def Let_def split: sum.splits prod.splits if_splits)

lemma NetworkCheck_run_name: "NetworkCheck_run h self w = Inr (r, self') \<Longrightarrow> name r = NetworkCheck_name"
  by (auto simp: NetworkCheck_run_def Let_def split: sum.splits prod.splits if_splits)

lemma run_object_Inr:
  "map_sum id (map_prod id g) x = Inr (r, chk) \<Longrightarrow> \<exists>self'. x = Inr (r, self')"
  by (cases x) auto

lemma ALL_CHECKS_cases:
  "c \<in> set (ALL_CHECKS h) \<Longrightarrow>
   c = NodeJSCheck h \<or> c = OpenClawCheck h \<or> c = DockerCheck h \<or> c = SystemCheck h \<or>
   c = ConfigCheck h \<or> c = APIKeysCheck h \<or> c = NetworkCheck h"
  by (auto simp: ALL_CHECKS_def)

lemma cls_simps [simp]:
  "cls_name (NodeJSCheck h) = NodeJSCheck_name"
  "cls_name (OpenClawCheck h) = OpenClawCheck_name"
  "cls_name (DockerCheck h) = DockerCheck_name"
  "cls_name (SystemCheck h) = SystemCheck_name"
  "cls_name (ConfigCheck h) = ConfigCheck_name"
  "cls_name (APIKeysCheck h) = APIKeysCheck_name"
  "cls_name (NetworkCheck h) = NetworkCheck_name"
  "cls_new (NodeJSCheck h) = object (NodeJSCheck_run h) (NodeJSCheck_fix h) NodeJSCheck_init"
  "cls_new (OpenClawCheck h) = object (OpenClawCheck_run h) (OpenClawCheck_fix h) OpenClawCheck_init"
  "cls_new (DockerCheck h) = object (DockerCheck_run h) (DockerCheck_fix h) DockerCheck_init"
  "cls_new (SystemCheck h) = object (SystemCheck_run h) (SystemCheck_fix h) SystemCheck_init"
  "cls_new (ConfigCheck h) = object (ConfigCheck_run h) (ConfigCheck_fix h) ConfigCheck_init"
  "cls_new (APIKeysCheck h) = object (APIKeysCheck_run h) (APIKeysCheck_fix h) APIKeysCheck_init"
  "cls_new (NetworkCheck h) = object (NetworkCheck_run h) (NetworkCheck_fix h) NetworkCheck_init"
  by (simp_all add: NodeJSCheck_def OpenClawCheck_def DockerCheck_def SystemCheck_def
      ConfigCheck_def APIKeysCheck_def NetworkCheck_def)

lemma run_new_name:
  assumes "c \<in> set (ALL_CHECKS h)" and "run (cls_new c) w = Inr (r, chk)"
  shows "name r = cls_name c"
proof -
  from ALL_CHECKS_cases [OF assms(1)]
  consider "c = NodeJSCheck h" | "c = OpenClawCheck h" | "c = DockerCheck h" | "c = SystemCheck h"
    | "c = ConfigCheck h" | "c = APIKeysCheck h" | "c = NetworkCheck h" by blast
  then show ?thesis
  proof cases
    case 1
    with assms(2) show ?thesis by (auto dest!: run_object_Inr dest: NodeJSCheck_run_name)
  next
    case 2
    with assms(2) show ?thesis by (auto dest!: run_object_Inr dest: OpenClawCheck_run_name)
  next
    case 3
    with assms(2) show ?thesis by (auto dest!: run_object_Inr dest: DockerCheck_run_name)
  next
    case 4
    with assms(2) show ?thesis by (auto dest!: run_object_Inr dest: SystemCheck_run_name)
  next
    case 5
    with assms(2) show ?thesis by (auto dest!: run_object_Inr dest: ConfigCheck_run_name)
  next
    case 6
    with assms(2) show ?thesis by (auto dest!: run_object_Inr dest: APIKeysCheck_run_name)
  next
    case 7
    with assms(2) show ?thesis by (auto dest!: run_object_Inr dest: NetworkCheck_run_name)
  qed
qed

lemmas name_defs = NodeJSCheck_name_def OpenClawCheck_name_def DockerCheck_name_def
  SystemCheck_name_def ConfigCheck_name_def APIKeysCheck_name_def NetworkCheck_name_def

lemma find_by_class_name:
  assumes "c \<in> set (ALL_CHECKS h)"
  shows "find (\<lambda>c'. cls_name c' = cls_name c) (ALL_CHECKS h) = Some c"
proof -
  from ALL_CHECKS_cases [OF assms]
  consider "c = NodeJSCheck h" | "c = OpenClawCheck h" | "c = DockerCheck h" | "c = SystemCheck h"
    | "c = ConfigCheck h" | "c = APIKeysCheck h" | "c = NetworkCheck h" by blast
  then show ?thesis
    by cases (simp_all add: ALL_CHECKS_def name_defs)
qed

subsection \<open>The example machine\<close>

lemmas probe_defs =
  NodeJSCheck_def NodeJSCheck_run_def NodeJSCheck_init_def NodeJSCheck_name_def
  OpenClawCheck_def OpenClawCheck_run_def OpenClawCheck_init_def OpenClawCheck_name_def
  DockerCheck_def DockerCheck_run_def DockerCheck_init_def DockerCheck_name_def
  SystemCheck_def SystemCheck_run_def SystemCheck_init_def SystemCheck_name_def System_cpu_count_def System_check_ram_def System_check_disk_def System_check_cpu_def System_build_result_def
  MIN_RAM_GB_def RECOMMENDED_RAM_GB_def MIN_DISK_GB_def MIN_CPU_CORES_def
  ConfigCheck_def ConfigCheck_run_def ConfigCheck_init_def ConfigCheck_name_def REQUIRED_FIELDS_def
  APIKeysCheck_def APIKeysCheck_run_def APIKeysCheck_init_def APIKeysCheck_name_def
  NetworkCheck_def NetworkCheck_run_def NetworkCheck_init_def NetworkCheck_name_def ENDPOINTS_def

lemma example_returns:
  "returns w (NodeJSCheck example_host)"
  "returns w (OpenClawCheck example_host)"
  "returns w (DockerCheck example_host)"
  "returns w (SystemCheck example_host)"
  "returns w (APIKeysCheck example_host)"
  "returns w (NetworkCheck example_host)"
  by (simp_all add: returns_def probe_defs example_host_def Let_def)

lemma example_config_raises:
  "run (cls_new (ConfigCheck example_host)) (Some (PyInt 42)) =
     Inl (TypeError ''argument of type 'int' is not iterable'')"
  by (simp add: probe_defs example_host_def)

subsection \<open>The lookup of a check by name\<close>

lemmas string_defs = lower_def lower_char_def upper_letters_def lower_letters_def

lemma lower_class_names [simp]:
  "lower ''Node.js'' = ''node.js''"
  "lower ''OpenClaw'' = ''openclaw''"
  "lower ''Docker'' = ''docker''"
  "lower ''System'' = ''system''"
  "lower ''Config'' = ''config''"
  "lower ''API Keys'' = ''api keys''"
  "lower ''Network'' = ''network''"
  by (simp_all add: string_defs)

lemma name_lower_of_aliases:
  "name_lower_of ''nodejs'' = ''nodejs''"
  "name_lower_of ''node'' = ''node''"
  "name_lower_of ''openclaw'' = ''openclaw''"
  "name_lower_of ''claw'' = ''claw''"
  "name_lower_of ''docker'' = ''docker''"
  "name_lower_of ''system'' = ''system''"
  "name_lower_of ''config'' = ''config''"
  "name_lower_of ''configuration'' = ''configuration''"
  "name_lower_of ''api_keys'' = ''api_keys''"
  "name_lower_of ''apikeys'' = ''apikeys''"
  "name_lower_of ''keys'' = ''keys''"
  "name_lower_of ''network'' = ''network''"
  "name_lower_of ''net'' = ''net''"
  by (simp_all add: name_lower_of_def string_defs replace.simps)


lemmas find_check_eval = find_check_def name_map_def ALL_CHECKS_def Let_def name_defs

lemma find_check_alias_eval:
  "find_check (ALL_CHECKS h) ''nodejs'' = Some (NodeJSCheck h)"
  "find_check (ALL_CHECKS h) ''node'' = Some (NodeJSCheck h)"
  "find_check (ALL_CHECKS h) ''openclaw'' = Some (OpenClawCheck h)"
  "find_check (ALL_CHECKS h) ''claw'' = Some (OpenClawCheck h)"
  "find_check (ALL_CHECKS h) ''docker'' = Some (DockerCheck h)"
  "find_check (ALL_CHECKS h) ''system'' = Some (SystemCheck h)"
  "find_check (ALL_CHECKS h) ''config'' = Some (ConfigCheck h)"
  "find_check (ALL_CHECKS h) ''configuration'' = Some (ConfigCheck h)"
  "find_check (ALL_CHECKS h) ''api_keys'' = Some (APIKeysCheck h)"
  "find_check (ALL_CHECKS h) ''apikeys'' = Some (APIKeysCheck h)"
  "find_check (ALL_CHECKS h) ''keys'' = Some (APIKeysCheck h)"
  "find_check (ALL_CHECKS h) ''network'' = Some (NetworkCheck h)"
  "find_check (ALL_CHECKS h) ''net'' = Some (NetworkCheck h)"
  by (simp_all add: find_check_eval name_lower_of_aliases)









subsection \<open>The JSON mode\<close>








subsection \<open>Executions on the example machine\<close>

lemmas orchestrator_defs = run_all_checks_def doctor_def check_def instantiate_def call_run_def
  call_fix_def emit_def init_exec_def passed_def is_warning_def count_status_def

lemma calls_map_Output_comp [simp]: "calls (map (Output \<circ> f) xs) = []"
  by (induction xs) simp_all

lemma example_config_returns: "returns None (ConfigCheck example_host)"
  by (simp add: returns_def probe_defs example_host_def)

lemma example_config_result:
  "can_auto_fix (result_of None (ConfigCheck example_host))"
  "name (result_of None (ConfigCheck example_host)) = ''Config''"
  by (simp_all add: result_of_def probe_defs example_host_def)


lemma example_batch_calls:
  "calls (trace (snd (run_all_checks [ConfigCheck example_host, NetworkCheck example_host]
                        True False (init_exec None)))) =
     [Instantiate 0 ''Config'', RunCall 0, Instantiate 1 ''Network'', RunCall 1,
      Instantiate 2 ''Config'', RunCall 2, FixCall 2]"
  by (simp add: orchestrator_defs probe_defs ConfigCheck_fix_def example_host_def
      Network_get_suggestions_def)

lemma example_single_calls:
  "calls (trace (snd (check (ALL_CHECKS example_host) ''config'' True False (init_exec None)))) =
     [Instantiate 0 ''Config'', RunCall 0, FixCall 0]"
  by (simp add: find_check_alias_eval orchestrator_defs probe_defs ConfigCheck_fix_def example_host_def)



subsection \<open>What the call order means\<close>

lemma created_append [simp]: "created (es @ fs) = created es @ created fs"
  by (induction es rule: created.induct) simp_all

lemma created_outputs [simp]: "created (map Output outs) = []"
  by (induction outs) simp_all

lemma seq_run_snoc:
  "seq_run st (es @ [e]) = (case seq_run st es of None \<Rightarrow> None | Some s \<Rightarrow> seq_step s e)"
  by (simp add: seq_run_append split: option.splits)

lemma seq_run_used:
  "seq_run (Some (ph0, used0)) es = Some (ph, used) \<Longrightarrow> set used = set used0 \<union> set (created es)"
proof (induction es arbitrary: ph used rule: rev_induct)
  case Nil
  then show ?case by simp
next
  case (snoc e es)
  from snoc.prems obtain ph1 used1 where 1: "seq_run (Some (ph0, used0)) es = Some (ph1, used1)"
    and 2: "seq_step (ph1, used1) e = Some (ph, used)"
    by (auto simp: seq_run_snoc split: option.splits)
  have "set used = set used1 \<union> set (created [e])"
  proof (cases e)
    case (Instantiate j k)
    with 2 have "used = j # used1" by (simp split: if_splits)
    with Instantiate show ?thesis by auto
  next
    case (RunCall j)
    with 2 show ?thesis by (simp split: if_splits)
  next
    case (FixCall j)
    with 2 show ?thesis by (simp split: if_splits)
  next
    case (Output out)
    with 2 show ?thesis by simp
  qed
  with snoc.IH [OF 1] show ?case by (simp add: Un_assoc)
qed

lemma seq_run_Ran:
  "seq_run (Some (ph0, used0)) es = Some (Ran i, used) \<Longrightarrow>
   (ph0 = Ran i \<and> (\<exists>outs. es = map Output outs)) \<or>
   (\<exists>es' outs. es = es' @ RunCall i # map Output outs \<and>
      seq_run (Some (ph0, used0)) es' = Some (Created i, used))"
proof (induction es arbitrary: used rule: rev_induct)
  case Nil
  then have "ph0 = Ran i \<and> [] = map Output []" by simp
  then show ?case by blast
next
  case (snoc e es)
  from snoc.prems obtain ph1 used1 where 1: "seq_run (Some (ph0, used0)) es = Some (ph1, used1)"
    and 2: "seq_step (ph1, used1) e = Some (Ran i, used)"
    by (auto simp: seq_run_snoc split: option.splits)
  show ?case
  proof (cases e)
    case (Output out)
    with 2 have "ph1 = Ran i" "used1 = used" by simp_all
    with 1 have "seq_run (Some (ph0, used0)) es = Some (Ran i, used)" by simp
    from snoc.IH [OF this] show ?thesis
    proof (elim disjE conjE exE)
      fix outs
      assume a: "ph0 = Ran i" "es = map Output outs"
      then have "es @ [e] = map Output (outs @ [out])" using Output by simp
      with a(1) show ?thesis by blast
    next
      fix es' outs
      assume b: "es = es' @ RunCall i # map Output outs"
        "seq_run (Some (ph0, used0)) es' = Some (Created i, used)"
      then have "es @ [e] = es' @ RunCall i # map Output (outs @ [out])" using Output by simp
      with b(2) show ?thesis by blast
    qed
  next
    case (RunCall j)
    with 2 have "ph1 = Created i" "j = i" "used1 = used" by (auto split: if_splits)
    with 1 RunCall have "es @ [e] = es @ RunCall i # map Output []"
      "seq_run (Some (ph0, used0)) es = Some (Created i, used)" by simp_all
    then show ?thesis by blast
  next
    case (Instantiate j k)
    with 2 have False by (simp split: if_splits)
    then show ?thesis ..
  next
    case (FixCall j)
    with 2 have False by (simp split: if_splits)
    then show ?thesis ..
  qed
qed

lemma seq_run_Created:
  "seq_run (Some (ph0, used0)) es = Some (Created i, used) \<Longrightarrow>
   (ph0 = Created i \<and> (\<exists>outs. es = map Output outs)) \<or>
   (\<exists>es' k outs. es = es' @ Instantiate i k # map Output outs \<and>
      i \<notin> set used0 \<union> set (created es'))"
proof (induction es arbitrary: used rule: rev_induct)
  case Nil
  then have "ph0 = Created i \<and> [] = map Output []" by simp
  then show ?case by blast
next
  case (snoc e es)
  from snoc.prems obtain ph1 used1 where 1: "seq_run (Some (ph0, used0)) es = Some (ph1, used1)"
    and 2: "seq_step (ph1, used1) e = Some (Created i, used)"
    by (auto simp: seq_run_snoc split: option.splits)
  show ?case
  proof (cases e)
    case (Output out)
    with 2 have "ph1 = Created i" "used1 = used" by simp_all
    with 1 have "seq_run (Some (ph0, used0)) es = Some (Created i, used)" by simp
    from snoc.IH [OF this] show ?thesis
    proof (elim disjE conjE exE)
      fix outs
      assume a: "ph0 = Created i" "es = map Output outs"
      then have "es @ [e] = map Output (outs @ [out])" using Output by simp
      with a(1) show ?thesis by blast
    next
      fix es' k outs
      assume b: "es = es' @ Instantiate i k # map Output outs"
        "i \<notin> set used0 \<union> set (created es')"
      then have "es @ [e] = es' @ Instantiate i k # map Output (outs @ [out])" using Output by simp
      with b(2) show ?thesis by blast
    qed
  next
    case (Instantiate j k)
    with 2 have j: "j = i" and fresh: "i \<notin> set used1" by (auto split: if_splits)
    from seq_run_used [OF 1] fresh have "i \<notin> set used0 \<union> set (created es)" by simp
    moreover have "es @ [e] = es @ Instantiate i k # map Output []" using Instantiate j by simp
    ultimately show ?thesis by blast
  next
    case (RunCall j)
    with 2 have False by (simp split: if_splits)
    then show ?thesis ..
  next
    case (FixCall j)
    with 2 have False by (simp split: if_splits)
    then show ?thesis ..
  qed
qed

lemma seq_run_prefix: "seq_run st (es @ fs) \<noteq> None \<Longrightarrow> seq_run st es \<noteq> None"
  by (cases "seq_run st es") (simp_all add: seq_run_append)

lemma fix_follows_run_meaning:
  assumes "fix_follows_run tr" and "tr = pre @ FixCall i # post"
  shows "\<exists>pre' k outs1 outs2.
     pre = pre' @ Instantiate i k # map Output outs1 @ RunCall i # map Output outs2 \<and>
     i \<notin> set (created pre')"
proof -
  from assms have "seq_run (Some (Idle, [])) ((pre @ [FixCall i]) @ post) \<noteq> None"
    by (simp add: fix_follows_run_def)
  then have "seq_run (Some (Idle, [])) (pre @ [FixCall i]) \<noteq> None" by (rule seq_run_prefix)
  then obtain ph used where 1: "seq_run (Some (Idle, [])) pre = Some (ph, used)"
    and 2: "seq_step (ph, used) (FixCall i) \<noteq> None"
    by (auto simp: seq_run_snoc split: option.splits)
  from 2 have "ph = Ran i" by (auto split: if_splits)
  with 1 seq_run_Ran [of Idle "[]" pre i used] obtain es' outs2
    where pre: "pre = es' @ RunCall i # map Output outs2"
      and 3: "seq_run (Some (Idle, [])) es' = Some (Created i, used)" by auto
  from seq_run_Created [OF 3] obtain pre' k outs1
    where "es' = pre' @ Instantiate i k # map Output outs1" "i \<notin> set (created pre')" by auto
  with pre show ?thesis by auto
qed

subsection \<open>The fix pass and the tally\<close>

lemma fix_loop_single_auto:
  assumes "can_auto_fix result" and "find (\<lambda>c. cls_name c = name result) all_checks = Some c"
    and "\<not> isl (run (cls_new c) (world ex))"
  shows "calls (trace (snd (fix_loop all_checks [result] ex))) =
     calls (trace ex) @
     [Instantiate (next_id ex) (name result), RunCall (next_id ex), FixCall (next_id ex)]"
proof -
  from assms(2) have n: "cls_name c = name result" by (auto simp: find_Some_iff)
  from assms(3) obtain rerun chk where r: "run (cls_new c) (world ex) = Inr (rerun, chk)"
    by (cases "run (cls_new c) (world ex)") auto
  obtain s outs w' where f: "fix' chk (world ex) = (s, outs, w')"
    by (cases "fix' chk (world ex)")
  show ?thesis
    using assms(1,2) n r f
    by (cases s) (simp_all add: instantiate_def call_run_def call_fix_def emit_def)
qed

lemma fix_loop_single_manual:
  assumes "\<not> can_auto_fix result"
  shows "calls (trace (snd (fix_loop all_checks [result] ex))) = calls (trace ex)"
  using assms by (simp add: calls_def filter_empty_conv)

lemma run_all_checks_counts:
  assumes "fst (run_all_checks all_checks fix verbose ex) = Inr (results, n_passed, warnings, failed)"
  shows "n_passed = count_status PASS results \<and> warnings = count_status WARN results \<and>
     failed = count_status FAIL results + count_status SKIP results"
proof -
  let ?ex0 = "emit [Progress_add_task ''Running health checks...'' (length all_checks)] ex"
  obtain res ex1 where l: "run_loop all_checks [] ?ex0 = (res, ex1)"
    by (cases "run_loop all_checks [] ?ex0")
  show ?thesis
  proof (cases res)
    case (Inl e)
    with l assms show ?thesis by (simp add: run_all_checks_def)
  next
    case (Inr rs)
    obtain counts ex2 where d: "display_loop verbose rs (0, 0, 0) ex1 = (counts, ex2)"
      by (cases "display_loop verbose rs (0, 0, 0) ex1")
    from display_loop_counts [of verbose rs 0 0 0 ex1] d
    have c: "counts = (count_status PASS rs, count_status WARN rs,
                       count_status FAIL rs + count_status SKIP rs)" by simp
    from assms l Inr d have "results = rs \<and> (n_passed, warnings, failed) = counts"
      by (auto simp: run_all_checks_def Let_def split: if_splits prod.splits sum.splits)
    with c show ?thesis by simp
  qed
qed

subsection \<open>The statuses of the registered probes\<close>

lemma NodeJSCheck_run_status: "NodeJSCheck_run h self w = Inr (r, self') \<Longrightarrow> status r \<noteq> SKIP"
  by (auto simp: NodeJSCheck_run_def Let_def split: sum.splits prod.splits if_splits)

lemma OpenClawCheck_run_status: "OpenClawCheck_run h self w = Inr (r, self') \<Longrightarrow> status r \<noteq> SKIP"
  by (auto simp: OpenClawCheck_run_def Let_def split: sum.splits prod.splits if_splits)

lemma DockerCheck_run_status: "DockerCheck_run h self w = Inr (r, self') \<Longrightarrow> status r \<noteq> SKIP"
  by (auto simp: DockerCheck_run_def Let_def split: sum.splits prod.splits if_splits)

lemma System_build_result_status: "status (System_build_result h self) \<noteq> SKIP"
  by (simp add: System_build_result_def Let_def)

lemma SystemCheck_run_result:
  "SystemCheck_run h self w = Inr (r, self') \<Longrightarrow> r = System_build_result h self'"
  by (auto simp: SystemCheck_run_def split: sum.splits)

lemma SystemCheck_run_status: "SystemCheck_run h self w = Inr (r, self') \<Longrightarrow> status r \<noteq> SKIP"
  by (auto dest!: SystemCheck_run_result simp: System_build_result_status)

lemma ConfigCheck_run_status: "ConfigCheck_run h self w = Inr (r, self') \<Longrightarrow> status r \<noteq> SKIP"
  by (auto simp: ConfigCheck_run_def Let_def split: sum.splits prod.splits if_splits option.splits exn.splits)

lemma APIKeysCheck_run_status: "APIKeysCheck_run h self w = Inr (r, self') \<Longrightarrow> status r \<noteq> SKIP"
  by (auto simp: APIKeysCheck_run_def Let_def split: sum.splits prod.splits if_splits)

lemma NetworkCheck_run_status: "NetworkCheck_run h self w = Inr (r, self') \<Longrightarrow> status r \<noteq> SKIP"
  by (auto simp: NetworkCheck_run_def Let_def split: sum.splits prod.splits if_splits)

lemma registered_never_skip:
  assumes "c \<in> set (ALL_CHECKS h)" and "run (cls_new c) w = Inr (r, chk)"
  shows "status r \<noteq> SKIP"
proof -
  from ALL_CHECKS_cases [OF assms(1)]
  consider "c = NodeJSCheck h" | "c = OpenClawCheck h" | "c = DockerCheck h" | "c = SystemCheck h"
    | "c = ConfigCheck h" | "c = APIKeysCheck h" | "c = NetworkCheck h" by blast
  then show ?thesis
  proof cases
    case 1
    with assms(2) show ?thesis by (auto dest!: run_object_Inr dest: NodeJSCheck_run_status)
  next
    case 2
    with assms(2) show ?thesis by (auto dest!: run_object_Inr dest: OpenClawCheck_run_status)
  next
    case 3
    with assms(2) show ?thesis by (auto dest!: run_object_Inr dest: DockerCheck_run_status)
  next
    case 4
    with assms(2) show ?thesis by (auto dest!: run_object_Inr dest: SystemCheck_run_status)
  next
    case 5
    with assms(2) show ?thesis by (auto dest!: run_object_Inr dest: ConfigCheck_run_status)
  next
    case 6
    with assms(2) show ?thesis by (auto dest!: run_object_Inr dest: APIKeysCheck_run_status)
  next
    case 7
    with assms(2) show ?thesis by (auto dest!: run_object_Inr dest: NetworkCheck_run_status)
  qed
qed

subsection \<open>Next steps and informational fixes\<close>

lemma System_check_ram_issues:
  assumes "System_check_ram h self w = Inr s" and "System_issues self = []"
  shows "System_issues s \<noteq> [] \<longrightarrow> System_ram_gb s < real RECOMMENDED_RAM_GB"
  using assms
  by (auto simp: System_check_ram_def Let_def MIN_RAM_GB_def RECOMMENDED_RAM_GB_def
      split: sum.splits if_splits)

lemma System_check_disk_issues:
  assumes "System_check_disk h self w = Inr s"
  shows "System_ram_gb s = System_ram_gb self"
    and "System_issues s \<noteq> [] \<longrightarrow> System_issues self \<noteq> [] \<or> System_disk_gb s < real MIN_DISK_GB"
  using assms
  by (auto simp: System_check_disk_def Let_def split: sum.splits if_splits)

lemma System_check_cpu_issues:
  assumes "System_check_cpu h self w = Inr s"
  shows "System_ram_gb s = System_ram_gb self" and "System_disk_gb s = System_disk_gb self"
    and "System_issues s = System_issues self"
  using assms
  by (auto simp: System_check_cpu_def Let_def split: sum.splits if_splits)

lemma System_get_suggestions_nonempty:
  "System_ram_gb s < real RECOMMENDED_RAM_GB \<or> System_disk_gb s < real MIN_DISK_GB
     \<Longrightarrow> System_get_suggestions s \<noteq> []"
  by (auto simp: System_get_suggestions_def)

lemma SystemCheck_run_issues:
  assumes "SystemCheck_run h self w = Inr (r, self')" and "System_issues self' \<noteq> []"
  shows "System_ram_gb self' < real RECOMMENDED_RAM_GB \<or> System_disk_gb self' < real MIN_DISK_GB"
proof -
  from assms(1) obtain s1 s2 where
    1: "System_check_ram h (self\<lparr>System_issues := [], System_warnings := []\<rparr>) w = Inr s1" and
    2: "System_check_disk h s1 w = Inr s2" and
    3: "System_check_cpu h s2 w = Inr self'"
    by (auto simp: SystemCheck_run_def split: sum.splits)
  from System_check_cpu_issues [OF 3] assms(2)
  have a: "System_issues s2 \<noteq> []" "System_ram_gb self' = System_ram_gb s2"
    "System_disk_gb self' = System_disk_gb s2" by simp_all
  from System_check_disk_issues [OF 2] a(1)
  have b: "System_issues s1 \<noteq> [] \<or> System_disk_gb s2 < real MIN_DISK_GB"
    "System_ram_gb s2 = System_ram_gb s1" by simp_all
  from System_check_ram_issues [OF 1]
  have c: "System_issues s1 \<noteq> [] \<longrightarrow> System_ram_gb s1 < real RECOMMENDED_RAM_GB" by simp
  from a b c show ?thesis by auto
qed

lemma SystemCheck_fail_next_step:
  assumes "SystemCheck_run h self w = Inr (r, self')" and "status r = FAIL"
  shows "fix_suggestions r \<noteq> []"
proof -
  have r: "r = System_build_result h self'" using assms(1) by (rule SystemCheck_run_result)
  with assms(2) have i: "System_issues self' \<noteq> []"
    by (simp add: System_build_result_def Let_def split: if_splits)
  from SystemCheck_run_issues [OF assms(1) i]
  have "System_get_suggestions self' \<noteq> []" by (rule System_get_suggestions_nonempty)
  with r i show ?thesis by (simp add: System_build_result_def)
qed

lemma informational_fixes:
  "fst (SystemCheck_fix h s1 w) = Inr False" "snd (snd (SystemCheck_fix h s1 w)) = w"
  "fst (NetworkCheck_fix h s2 w) = Inr False" "snd (snd (NetworkCheck_fix h s2 w)) = w"
  "fst (APIKeysCheck_fix h s3 w) = Inr False" "snd (snd (APIKeysCheck_fix h s3 w)) = w"
  by (simp_all add: SystemCheck_fix_def NetworkCheck_fix_def APIKeysCheck_fix_def)

lemma System_build_result_can_auto_fix: "\<not> can_auto_fix (System_build_result h self)"
  by (simp add: System_build_result_def Let_def)

lemma SystemCheck_never_auto_fix: "SystemCheck_run h self w = Inr (r, self') \<Longrightarrow> \<not> can_auto_fix r"
  by (auto dest!: SystemCheck_run_result simp: System_build_result_can_auto_fix)

lemma NetworkCheck_never_auto_fix: "NetworkCheck_run h self w = Inr (r, self') \<Longrightarrow> \<not> can_auto_fix r"
  by (auto simp: NetworkCheck_run_def Let_def split: if_splits)

lemma NodeJSCheck_run_next_step: "NodeJSCheck_run h self w = Inr (r, self') \<Longrightarrow> has_next_step r"
  by (auto simp: has_next_step_def NodeJSCheck_run_def Let_def split: sum.splits prod.splits if_splits)

lemma OpenClawCheck_run_next_step: "OpenClawCheck_run h self w = Inr (r, self') \<Longrightarrow> has_next_step r"
  by (auto simp: has_next_step_def OpenClawCheck_run_def Let_def split: sum.splits prod.splits if_splits)

lemma APIKeysCheck_run_next_step: "APIKeysCheck_run h self w = Inr (r, self') \<Longrightarrow> has_next_step r"
  by (auto simp: has_next_step_def APIKeysCheck_run_def Let_def split: sum.splits prod.splits if_splits)

lemma DockerCheck_run_next_step: "DockerCheck_run h self w = Inr (r, self') \<Longrightarrow> has_next_step r"
  by (auto simp: has_next_step_def DockerCheck_run_def Docker_get_install_suggestions_def Let_def
      split: sum.splits prod.splits if_splits)

lemma ConfigCheck_run_next_step: "ConfigCheck_run h self w = Inr (r, self') \<Longrightarrow> has_next_step r"
  by (auto simp: has_next_step_def ConfigCheck_run_def Let_def
      split: sum.splits prod.splits if_splits option.splits exn.splits)

lemma NetworkCheck_run_next_step: "NetworkCheck_run h self w = Inr (r, self') \<Longrightarrow> has_next_step r"
  by (auto simp: has_next_step_def NetworkCheck_run_def Network_get_suggestions_def Let_def
      split: sum.splits prod.splits if_splits)

section \<open>The claims\<close>



text \<open>
  C2 (corrected). The claim: the orchestrator catches an exception of a probe's \<open>run\<close>,
  makes a Fail result of it and goes on with the next probe. No command catches it. On the
  example machine with a config file that holds the number 42, \<open>ConfigCheck.run\<close> raises
  \<^verbatim>\<open>TypeError\<close> (from \<^verbatim>\<open>"provider" not in 42\<close>): \<open>doctor\<close> ends with this exception
  uncaught, after the first five probes have been created and run; the last two never
  are.
\<close>

theorem config_type_error_aborts_pass:
  "fst (doctor (ALL_CHECKS example_host) ''0.1.0'' False False False
          (init_exec (Some (PyInt 42)))) =
     Inl (Raised (TypeError ''argument of type 'int' is not iterable'')) \<and>
   calls (trace (snd (doctor (ALL_CHECKS example_host) ''0.1.0'' False False False
                        (init_exec (Some (PyInt 42)))))) =
     [Instantiate 0 ''Node.js'', RunCall 0, Instantiate 1 ''OpenClaw'', RunCall 1,
      Instantiate 2 ''Docker'', RunCall 2, Instantiate 3 ''System'', RunCall 3,
      Instantiate 4 ''Config'', RunCall 4]"
proof -
  let ?pre = "[NodeJSCheck example_host, OpenClawCheck example_host, DockerCheck example_host,
               SystemCheck example_host]"
  let ?post = "[APIKeysCheck example_host, NetworkCheck example_host]"
  let ?ex = "init_exec (Some (PyInt 42))"
  have reg: "ALL_CHECKS example_host = ?pre @ ConfigCheck example_host # ?post"
    by (simp add: ALL_CHECKS_def)
  have a: "list_all (returns (world ?ex)) ?pre" by (simp add: example_returns)
  have b: "run (cls_new (ConfigCheck example_host)) (world ?ex) =
             Inl (TypeError ''argument of type 'int' is not iterable'')"
    using example_config_raises by (simp add: init_exec_def)
  from doctor_raises [OF a b, of ?post "''0.1.0''" False False False]
  show ?thesis unfolding reg
    by (auto simp: init_exec_def name_defs)
qed

text \<open>
  C2, as amended: when \<open>run\<close> of a registered probe raises during a batch pass, and \<open>run\<close>
  of every probe before it in the registry returns, then \<open>run_all_checks\<close> raises this
  exception and \<open>doctor\<close>, in either output mode, ends with it uncaught; the calls of the
  pass are the creation and the run of the probes up to the raising one, one after the
  other in registry order, so no result is made for the raising probe and no later probe
  is created or run.
\<close>

theorem run_exception_propagates:
  assumes "list_all (returns w) pre" and "run (cls_new c) w = Inl e"
  shows "fst (run_all_checks (pre @ c # post) fix verbose (init_exec w)) = Inl e \<and>
     calls (trace (snd (run_all_checks (pre @ c # post) fix verbose (init_exec w)))) =
       run_blocks 0 (pre @ [c]) \<and>
     fst (doctor (pre @ c # post) version fix verbose json_output (init_exec w)) =
       Inl (Raised e) \<and>
     calls (trace (snd (doctor (pre @ c # post) version fix verbose json_output
                          (init_exec w)))) =
       run_blocks 0 (pre @ [c])"
proof -
  have a: "list_all (returns (world (init_exec w))) pre"
    "run (cls_new c) (world (init_exec w)) = Inl e"
    using assms by (simp_all add: init_exec_def)
  from run_all_checks_raises [OF a, of post "fix" verbose]
    doctor_raises [OF a, of post version "fix" verbose json_output]
  show ?thesis by (auto simp: init_exec_def)
qed

theorem run_exception_propagates_witness:
  "list_all (returns (Some (PyInt 42))) [NodeJSCheck example_host] \<and>
   run (cls_new (ConfigCheck example_host)) (Some (PyInt 42)) =
     Inl (TypeError ''argument of type 'int' is not iterable'') \<and>
   fst (run_all_checks
          [NodeJSCheck example_host, ConfigCheck example_host, NetworkCheck example_host]
          True False (init_exec (Some (PyInt 42)))) =
     Inl (TypeError ''argument of type 'int' is not iterable'')"
proof -
  have a: "list_all (returns (Some (PyInt 42))) [NodeJSCheck example_host]"
    by (simp add: example_returns)
  have b: "run (cls_new (ConfigCheck example_host)) (Some (PyInt 42)) =
             Inl (TypeError ''argument of type 'int' is not iterable'')"
    by (rule example_config_raises)
  have "fst (run_all_checks
               ([NodeJSCheck example_host] @ ConfigCheck example_host #
                [NetworkCheck example_host])
               True False (init_exec (Some (PyInt 42)))) =
          Inl (TypeError ''argument of type 'int' is not iterable'')"
    using run_exception_propagates [OF a b] by blast
  then have "fst (run_all_checks
               [NodeJSCheck example_host, ConfigCheck example_host, NetworkCheck example_host]
               True False (init_exec (Some (PyInt 42)))) =
          Inl (TypeError ''argument of type 'int' is not iterable'')"
    by simp
  with a b show ?thesis by blast
qed



text \<open>
  C4 (found false on \<open>NodeJSCheck\<close>). The claim: a probe whose \<open>fix\<close> only prints guidance
  and always returns false never reports \<open>can_auto_fix\<close>. \<open>NodeJSCheck.fix\<close> returns
  \<^verbatim>\<open>False\<close> on every machine and in every state of the instance, and leaves the machine
  as it is; on the example machine, where Node.js is not installed, \<open>run\<close> returns a Fail
  result with \<open>can_auto_fix\<close> true. (\<open>SystemCheck\<close> and \<open>NetworkCheck\<close>, whose \<open>fix\<close> is
  of the same kind, never report \<open>can_auto_fix\<close>: \<open>informational_fixes\<close>,
  \<open>SystemCheck_never_auto_fix\<close>, \<open>NetworkCheck_never_auto_fix\<close>.)
\<close>

theorem NodeJSCheck_auto_fix_flag_with_informational_fix:
  "fst (NodeJSCheck_fix h self w) = Inr False \<and>
   snd (snd (NodeJSCheck_fix h self w)) = w \<and>
   map_sum id (\<lambda>(r, chk). (status r, can_auto_fix r, fst (fix' chk None)))
     (run (cls_new (NodeJSCheck example_host)) None) = Inr (FAIL, True, Inr False)"
  by (simp add: NodeJSCheck_fix_def NodeJSCheck_run_def NodeJSCheck_init_def example_host_def)

text \<open>
  C5 (found false on \<open>SystemCheck\<close>). The claim: a result with status Warn or Fail and
  \<open>can_auto_fix\<close> false has a non-empty list of fix suggestions. On the example machine
  (8 GiB of memory, 100 GiB of free disk, one CPU core) \<open>SystemCheck.run\<close> warns about the
  CPU, and \<open>_get_suggestions\<close>, which looks at memory and disk only, returns the empty
  list. (The results of the six other probes, and the Fail results of \<open>SystemCheck\<close>,
  do name a next step: the lemmas \<open>\<dots>_run_next_step\<close> and
  \<open>SystemCheck_fail_next_step\<close>.)
\<close>

theorem SystemCheck_warn_without_suggestions:
  "map_sum id (\<lambda>(r, self). (status r, can_auto_fix r, fix_suggestions r))
     (SystemCheck_run example_host SystemCheck_init w) = Inr (WARN, False, [])"
  by (simp add: SystemCheck_run_def System_check_ram_def System_check_disk_def
      System_check_cpu_def System_build_result_def System_cpu_count_def
      System_get_suggestions_def SystemCheck_init_def example_host_def
      MIN_RAM_GB_def RECOMMENDED_RAM_GB_def MIN_DISK_GB_def MIN_CPU_CORES_def)

text \<open>
  C6 (corrected). The claim: the construction of a result rejects a missing and an empty
  message, and the other optional fields have the defaults \<open>details = None\<close>,
  \<open>can_auto_fix = False\<close> and an empty \<open>fix_suggestions\<close>. The constructor takes an empty
  message as it is.
\<close>

theorem CheckResult_init_accepts_empty_message:
  "CheckResult_init (Some ''Test'') (Some PASS) (Some []) None None None =
     Inr \<lparr>name = ''Test'', status = PASS, message = [], details = None,
          can_auto_fix = False, fix_suggestions = []\<rparr>"
  by (simp add: CheckResult_init_def)

text \<open>
  C6, as amended: the construction of a result is rejected when the message is missing;
  with a name, a status and any message, empty or not, it returns the result with this
  message, and the fields left out are \<open>details = None\<close>, \<open>can_auto_fix = False\<close> and an
  empty \<open>fix_suggestions\<close>.
\<close>

theorem CheckResult_init_message:
  "isl (CheckResult_init name_arg status_arg None details_arg can_auto_fix_arg
          fix_suggestions_arg) \<and>
   CheckResult_init (Some n) (Some s) (Some m) None None None =
     Inr \<lparr>name = n, status = s, message = m, details = None,
          can_auto_fix = False, fix_suggestions = []\<rparr>"
  by (simp add: CheckResult_init_def split: option.splits)



text \<open>
  C8. In every execution of \<open>run_all_checks\<close>, of \<open>doctor\<close> and of \<open>check\<close>, on every
  registry, machine and flags, also when a probe raises: \<open>fix\<close> is only called on the
  instance on which \<open>run\<close> has just been called, with nothing but output in between, and
  \<open>run\<close> only on an instance that has just been created and did not exist before
  (\<open>fix_follows_run\<close>, read out in \<open>fix_follows_run_meaning\<close>). In the fix pass, a
  result with \<open>can_auto_fix\<close> whose name is that of a class of the registry, the \<open>run\<close> of
  which returns, gives rise to exactly three calls: a new instance of this class is
  created, \<open>run\<close> is called on it, then \<open>fix\<close>; a result without \<open>can_auto_fix\<close> gives
  rise to no call.
\<close>

theorem fix_only_after_run:
  "fix_follows_run (trace (snd (run_all_checks all_checks fix verbose (init_exec w)))) \<and>
   fix_follows_run
     (trace (snd (doctor all_checks version fix verbose json_output (init_exec w)))) \<and>
   fix_follows_run (trace (snd (check all_checks name_arg fix verbose (init_exec w)))) \<and>
   (can_auto_fix result \<and> find (\<lambda>c. cls_name c = name result) all_checks = Some c \<and>
    returns (world ex) c \<longrightarrow>
      calls (trace (snd (fix_loop all_checks [result] ex))) =
        calls (trace ex) @
        [Instantiate (next_id ex) (cls_name c), RunCall (next_id ex), FixCall (next_id ex)]) \<and>
   (\<not> can_auto_fix result \<longrightarrow>
      calls (trace (snd (fix_loop all_checks [result] ex))) = calls (trace ex))"
proof -
  have "calls (trace (snd (fix_loop all_checks [result] ex))) =
        calls (trace ex) @
        [Instantiate (next_id ex) (cls_name c), RunCall (next_id ex), FixCall (next_id ex)]"
    if a: "can_auto_fix result" and b: "find (\<lambda>c. cls_name c = name result) all_checks = Some c"
      and c: "returns (world ex) c"
  proof -
    from b have "cls_name c = name result" by (auto simp: find_Some_iff)
    moreover from c have "\<not> isl (run (cls_new c) (world ex))" by (simp add: returns_def)
    ultimately show ?thesis using fix_loop_single_auto [OF a b] by simp
  qed
  moreover have "calls (trace (snd (fix_loop all_checks [result] ex))) = calls (trace ex)"
    if "\<not> can_auto_fix result"
    using that by (rule fix_loop_single_manual)
  ultimately show ?thesis
    using run_all_checks_ordered [OF ordered_init, of all_checks "fix" verbose w]
      doctor_ordered [OF ordered_init, of all_checks version "fix" verbose json_output w]
      check_ordered [OF ordered_init, of all_checks name_arg "fix" verbose w]
      ordered_fix_follows_run
    by blast
qed

theorem fix_only_after_run_witness:
  "calls (trace (snd (run_all_checks [ConfigCheck example_host, NetworkCheck example_host]
                        True False (init_exec None)))) =
     [Instantiate 0 ''Config'', RunCall 0, Instantiate 1 ''Network'', RunCall 1,
      Instantiate 2 ''Config'', RunCall 2, FixCall 2] \<and>
   fix_follows_run (trace (snd (run_all_checks [ConfigCheck example_host, NetworkCheck example_host]
                        True False (init_exec None)))) \<and>
   calls (trace (snd (check (ALL_CHECKS example_host) ''config'' True False (init_exec None)))) =
     [Instantiate 0 ''Config'', RunCall 0, FixCall 0] \<and>
   fix_follows_run (trace (snd (check (ALL_CHECKS example_host) ''config'' True False
                        (init_exec None)))) \<and>
   can_auto_fix (result_of None (ConfigCheck example_host)) \<and>
   find (\<lambda>c. cls_name c = name (result_of None (ConfigCheck example_host)))
     [ConfigCheck example_host, NetworkCheck example_host] = Some (ConfigCheck example_host) \<and>
   returns None (ConfigCheck example_host) \<and>
   calls (trace (snd (fix_loop [ConfigCheck example_host, NetworkCheck example_host]
                        [result_of None (ConfigCheck example_host)] (init_exec None)))) =
     [Instantiate 0 ''Config'', RunCall 0, FixCall 0]"
proof -
  let ?cs = "[ConfigCheck example_host, NetworkCheck example_host]"
  let ?r = "result_of None (ConfigCheck example_host)"
  have "fix_follows_run (trace (snd (run_all_checks ?cs True False (init_exec None))))"
    using fix_only_after_run [of ?cs True False None]
    by blast
  moreover have "fix_follows_run (trace (snd (check (ALL_CHECKS example_host) ''config'' True False
                        (init_exec None))))"
    using fix_only_after_run [of "ALL_CHECKS example_host" True False None _ _ "''config''"]
    by blast
  moreover have a: "can_auto_fix ?r" by (rule example_config_result)
  moreover have b: "find (\<lambda>c. cls_name c = name ?r) ?cs = Some (ConfigCheck example_host)"
    by (simp add: example_config_result name_defs)
  moreover have c: "returns (world (init_exec None)) (ConfigCheck example_host)"
    using example_config_returns by (simp add: init_exec_def)
  moreover have "calls (trace (snd (fix_loop ?cs [?r] (init_exec None)))) =
     [Instantiate 0 ''Config'', RunCall 0, FixCall 0]"
  proof -
    note t = fix_only_after_run [of ?cs True False None "''0.1.0''" False "''config''" ?r
        "ConfigCheck example_host" "init_exec None"]
    note t [THEN conjunct2, THEN conjunct2, THEN conjunct2, THEN conjunct1, THEN mp,
        OF conjI [OF a conjI [OF b c]]]
    then show ?thesis by (simp add: init_exec_def name_defs)
  qed
  ultimately show ?thesis using example_batch_calls example_single_calls example_config_returns
    by blast
qed

text \<open>
  C9. For every class of the registry, on every host and machine: when \<open>run\<close> on a new
  instance returns a result, the name of the result is the name of the class, and the
  lookup of the fix pass, the first class of the registry with the name of the result,
  finds this class.
\<close>

theorem run_result_name_is_class_name:
  assumes "c \<in> set (ALL_CHECKS h)" and "run (cls_new c) w = Inr (r, chk)"
  shows "name r = cls_name c \<and> find (\<lambda>c'. cls_name c' = name r) (ALL_CHECKS h) = Some c"
  using run_new_name [OF assms] find_by_class_name [OF assms(1)] by simp

theorem run_result_name_is_class_name_witness:
  "NodeJSCheck example_host \<in> set (ALL_CHECKS example_host) \<and>
   \<not> isl (run (cls_new (NodeJSCheck example_host)) None) \<and>
   name (fst (projr (run (cls_new (NodeJSCheck example_host)) None))) = ''Node.js'' \<and>
   cls_name (NodeJSCheck example_host) = ''Node.js''"
proof -
  have m: "NodeJSCheck example_host \<in> set (ALL_CHECKS example_host)"
    by (simp add: ALL_CHECKS_def)
  obtain r chk where r: "run (cls_new (NodeJSCheck example_host)) None = Inr (r, chk)"
    by (simp add: NodeJSCheck_run_def example_host_def)
  from run_result_name_is_class_name [OF m r]
  have "name r = cls_name (NodeJSCheck example_host)" by simp
  then show ?thesis using m r by (simp add: NodeJSCheck_name_def)
qed



end
